theory Spec2Isabelle
  imports Main
begin

section \<open>The route trie of mini-router\<close>

text \<open>
  The Go package \<^verbatim>\<open>router\<close> keeps its routes in a trie of \<^verbatim>\<open>node\<close> values, one per
  path segment. Handler functions are opaque to the router, so the trie is polymorphic in
  the type \<open>'h\<close> of a handler; a handler chain is a list of them.
\<close>

subsection \<open>The functions of package strings that the router calls\<close>

text \<open>
  \<^verbatim>\<open>strings.Trim(s, "/")\<close> removes every leading and trailing byte of the cutset,
  \<^verbatim>\<open>strings.Split(s, "/")\<close> cuts at every separator and returns at least one piece
  (the empty string gives one empty piece), \<^verbatim>\<open>strings.HasPrefix\<close> compares the first
  bytes. The separator is always the single byte \<^verbatim>\<open>/\<close> in this package.
\<close>

definition Trim :: "string \<Rightarrow> string \<Rightarrow> string" where
  "Trim s cutset =
     rev (dropWhile (\<lambda>c. c \<in> set cutset) (rev (dropWhile (\<lambda>c. c \<in> set cutset) s)))"

fun Split :: "string \<Rightarrow> char \<Rightarrow> string list" where
  "Split [] sep = [[]]"
| "Split (c # cs) sep =
     (if c = sep then [] # Split cs sep
      else (case Split cs sep of
              [] \<Rightarrow> [[c]]
            | piece # pieces \<Rightarrow> (c # piece) # pieces))"

definition HasPrefix :: "string \<Rightarrow> string \<Rightarrow> bool" where
  "HasPrefix s pre = (take (length pre) s = pre)"

definition path_parts :: "string \<Rightarrow> string list" where
  "path_parts p = Split (Trim p ''/'') CHR ''/''"

subsection \<open>Nodes and routers\<close>

text \<open>
  \<^verbatim>\<open>type node struct { path; handler map[string][]HandlerFunc; children map[string]*node;
  isParam bool; paramName string }\<close>. A node is only ever referenced from the
  \<^verbatim>\<open>children\<close> map of its parent, so the pointer structure is a tree and an update in
  place is the rebuilding of the path to the updated node.
\<close>

datatype 'h node =
  Node (path: string)
       (handler: "string \<rightharpoonup> 'h list")
       (children: "string \<rightharpoonup> 'h node")
       (isParam: bool)
       (paramName: string)

text \<open>
  What ends a call without a result: the \<^verbatim>\<open>panic\<close> of \<^verbatim>\<open>handle\<close> with its message,
  the panic of the Go runtime on a nil pointer, nil interface or nil function, the panic
  of \<^verbatim>\<open>sync.WaitGroup\<close> on a negative counter, and a wait that never returns.
\<close>

datatype error =
    HandlersPanic string
  | NilPanic
  | NegativeCounterPanic
  | Blocked

text \<open>
  The fields of \<^verbatim>\<open>Router\<close> that registration and dispatch read. The logger field is
  called \<^verbatim>\<open>log\<close> in Go; it is \<open>rlog\<close> here since the context has a field of that
  name too, and a logger is the list of attributes attached to it. The context pool
  hands \<^verbatim>\<open>ServeHTTP\<close> a context and takes it back, the worker pool runs the jobs.
\<close>

type_synonym logger = "(string \<times> string) list"

record 'h Router =
  root :: "'h node"
  middleware :: "'h list"
  rlog :: "logger option"
  prefix :: string

text \<open>\<^verbatim>\<open>NewRouter\<close>: a root with an empty children map (its handler map is nil and reads as
  empty), no middleware, no prefix.\<close>

definition NewRouter :: "logger option \<Rightarrow> 'h Router" where
  "NewRouter l =
     \<lparr> root = Node [] Map.empty Map.empty False [], middleware = [], rlog = l, prefix = [] \<rparr>"

definition Use :: "'h Router \<Rightarrow> 'h \<Rightarrow> 'h Router" where
  "Use rt mw = rt\<lparr> middleware := middleware rt @ [mw] \<rparr>"

subsection \<open>Registration: \<^verbatim>\<open>handle\<close>\<close>

text \<open>
  The loop of \<^verbatim>\<open>handle\<close> (route.go, lines 105 to 126) followed by the store of line 132.
  A segment that starts with \<^verbatim>\<open>:\<close> is filed under the key \<^verbatim>\<open>*\<close>; a child is created
  only when the key is absent, so an existing child keeps its \<^verbatim>\<open>paramName\<close>. The chain
  stored is the value of \<^verbatim>\<open>append(r.middleware, handlers...)\<close> at the time of the call.
  Slices are lists here: what a later \<^verbatim>\<open>append\<close> writes into an array that a stored
  chain shares with the middleware slice is not represented, and the properties below
  read a chain only right after it was stored.
\<close>

definition new_child :: "string \<Rightarrow> 'h node" where
  "new_child part0 =
     (if HasPrefix part0 '':'' then Node ''*'' Map.empty Map.empty True (drop 1 part0)
      else Node part0 Map.empty Map.empty False [])"

definition child_key :: "string \<Rightarrow> string" where
  "child_key part0 = (if HasPrefix part0 '':'' then ''*'' else part0)"

fun insert_route :: "'h node \<Rightarrow> string list \<Rightarrow> string \<Rightarrow> 'h list \<Rightarrow> 'h node" where
  "insert_route current [] method hs =
     Node (path current) ((handler current)(method \<mapsto> hs)) (children current)
          (isParam current) (paramName current)"
| "insert_route current (part0 # parts) method hs =
     (let part = child_key part0;
          child = (case children current part of
                     None \<Rightarrow> new_child part0
                   | Some c \<Rightarrow> c)
      in Node (path current) (handler current)
              ((children current)(part \<mapsto> insert_route child parts method hs))
              (isParam current) (paramName current))"

definition handle :: "'h Router \<Rightarrow> string \<Rightarrow> string \<Rightarrow> 'h list \<Rightarrow> error + 'h Router" where
  "handle rt method p handlers =
     (if length handlers = 0
      then Inl (HandlersPanic (''0 handlers for path: '' @ method @ '' '' @ p))
      else
        let fullPath = prefix rt @ p;
            parts = path_parts fullPath;
            handlers' = (if length (middleware rt) > 0 then middleware rt @ handlers
                         else handlers)
        in Inr (rt\<lparr> root := insert_route (root rt) parts method handlers' \<rparr>))"

definition GET :: "'h Router \<Rightarrow> string \<Rightarrow> 'h list \<Rightarrow> error + 'h Router" where
  "GET rt p handlers = handle rt ''GET'' p handlers"

definition POST :: "'h Router \<Rightarrow> string \<Rightarrow> 'h list \<Rightarrow> error + 'h Router" where
  "POST rt p handlers = handle rt ''POST'' p handlers"

text \<open>The router a caller holds after a registration: a panic leaves it as it was.\<close>

definition after_handle :: "'h Router \<Rightarrow> string \<Rightarrow> string \<Rightarrow> 'h list \<Rightarrow> 'h Router" where
  "after_handle rt method p handlers =
     (case handle rt method p handlers of Inl e \<Rightarrow> rt | Inr r' \<Rightarrow> r')"

subsection \<open>Resolution: the lookup inside \<^verbatim>\<open>ServeHTTP\<close>\<close>

text \<open>
  The loop of route.go, lines 152 to 163: an exact child first, the child under \<^verbatim>\<open>*\<close>
  second (binding the segment under that child's \<^verbatim>\<open>paramName\<close>), and no child at all
  ends the request. \<open>None\<close> is the \<^verbatim>\<open>return\<close> of line 161. The three ways the
  lookup of lines 152 to 169 can end are the values of \<open>resolve\<close>, on which the
  dispatcher branches.
\<close>

type_synonym params = "string \<rightharpoonup> string"

fun walk :: "'h node \<Rightarrow> string list \<Rightarrow> params \<Rightarrow> ('h node \<times> params) option" where
  "walk current [] ps = Some (current, ps)"
| "walk current (part # parts) ps =
     (case children current part of
        Some child \<Rightarrow> walk child parts ps
      | None \<Rightarrow>
          (case children current ''*'' of
             Some paramChild \<Rightarrow> walk paramChild parts (ps(paramName paramChild \<mapsto> part))
           | None \<Rightarrow> None))"

datatype 'h resolution =
    RouteNotFound
  | MethodNotAllowed
  | Found "'h list" params

definition resolve :: "'h Router \<Rightarrow> string \<Rightarrow> string \<Rightarrow> 'h resolution" where
  "resolve rt method url_path =
     (case walk (root rt) (path_parts url_path) Map.empty of
        None \<Rightarrow> RouteNotFound
      | Some (current, ps) \<Rightarrow>
          (case handler current method of
             None \<Rightarrow> MethodNotAllowed
           | Some hs \<Rightarrow> Found hs ps))"


section \<open>The request context\<close>

subsection \<open>Package context of the Go library\<close>

text \<open>
  \<^verbatim>\<open>APIContext\<close> wraps a \<^verbatim>\<open>context.Context\<close>. The library builds such a context as a
  chain of immutable nodes over \<^verbatim>\<open>context.Background()\<close>: \<^verbatim>\<open>WithCancel\<close> adds a node
  that its cancel function can fire, \<^verbatim>\<open>WithDeadline\<close> a node that also fires when its
  deadline has passed, \<^verbatim>\<open>WithValue\<close> a node that holds one key and value. A node is done
  as soon as it, or any node below it, has fired. Each node that can be cancelled is
  named by a number; which of them have been cancelled is a table on the side, since
  the cancel function kept in \<^verbatim>\<open>APIContext.cancel\<close> and the chain kept in
  \<^verbatim>\<open>APIContext.ctx\<close> refer to the same node. Time is a logical clock in the unit of
  \<^verbatim>\<open>time.Duration\<close>; a timer is taken to fire at its deadline exactly.
\<close>

datatype 'a gctx =
    Background
  | cancelCtx nat "'a gctx"
  | timerCtx int nat "'a gctx"
  | valueCtx 'a 'a "'a gctx"

fun ctx_done :: "(nat \<Rightarrow> bool) \<Rightarrow> int \<Rightarrow> 'a gctx \<Rightarrow> bool" where
  "ctx_done fl now Background = False"
| "ctx_done fl now (cancelCtx i parent) = (fl i \<or> ctx_done fl now parent)"
| "ctx_done fl now (timerCtx dl i parent) = (fl i \<or> dl \<le> now \<or> ctx_done fl now parent)"
| "ctx_done fl now (valueCtx k v parent) = ctx_done fl now parent"

fun ctx_deadline :: "'a gctx \<Rightarrow> int option" where
  "ctx_deadline Background = None"
| "ctx_deadline (cancelCtx i parent) = ctx_deadline parent"
| "ctx_deadline (timerCtx dl i parent) = Some dl"
| "ctx_deadline (valueCtx k v parent) = ctx_deadline parent"

fun ctx_value :: "'a gctx \<Rightarrow> 'a \<Rightarrow> 'a option" where
  "ctx_value Background key = None"
| "ctx_value (cancelCtx i parent) key = ctx_value parent key"
| "ctx_value (timerCtx dl i parent) key = ctx_value parent key"
| "ctx_value (valueCtx k v parent) key = (if key = k then Some v else ctx_value parent key)"

fun ctx_ids :: "'a gctx \<Rightarrow> nat set" where
  "ctx_ids Background = {}"
| "ctx_ids (cancelCtx i parent) = insert i (ctx_ids parent)"
| "ctx_ids (timerCtx dl i parent) = insert i (ctx_ids parent)"
| "ctx_ids (valueCtx k v parent) = ctx_ids parent"

subsection \<open>\<^verbatim>\<open>APIContext\<close>\<close>

text \<open>
  The calls a \<^verbatim>\<open>http.ResponseWriter\<close> has received, in order; an error that
  \<^verbatim>\<open>Write\<close> returns is only logged by the package. The body written by
  \<^verbatim>\<open>WriteFailure\<close> is what \<^verbatim>\<open>json.Marshal(Error{ErrorMessage: msg})\<close> returns, the
  object with the one member \<^verbatim>\<open>errors\<close>; the body written by \<^verbatim>\<open>SuccessWithData\<close> is
  what \<^verbatim>\<open>json.Marshal(data)\<close> returned, nothing when it failed.
\<close>

datatype body = ErrorsObject string | Marshalled "string option"

datatype event = HeaderSet string string | WriteHeader int | Write body

record request =
  Method :: string
  URL_Path :: string

text \<open>
  The fields of the Go struct, a pointer or interface field as an option with \<open>None\<close>
  for nil. A nil \<^verbatim>\<open>pathParams\<close> map reads like an empty one and is never written to, and
  a nil slice is the empty list. The last three fields are not fields of the struct:
  they are the clock and the part of the heap the methods of this context work on
  (the cancelled flag of each context node and the next unused node number).
\<close>

record ('h, 'a) APIContext =
  w :: "event list option"
  r :: "request option"
  ctx :: "'a gctx option"
  cancel :: "nat option"
  pathParams :: params
  handlers :: "'h list"
  log :: "logger option"
  wg :: "nat option"
  clock :: int
  cancelled :: "nat \<Rightarrow> bool"
  fresh :: nat

text \<open>\<^verbatim>\<open>&APIContext{}\<close>, what the pool's \<^verbatim>\<open>New\<close> returns, at a given clock and heap.\<close>

definition zero_APIContext :: "int \<Rightarrow> (nat \<Rightarrow> bool) \<Rightarrow> nat \<Rightarrow> ('h, 'a) APIContext" where
  "zero_APIContext now fl n =
     \<lparr> w = None, r = None, ctx = None, cancel = None, pathParams = Map.empty,
       handlers = [], log = None, wg = None, clock = now, cancelled = fl, fresh = n \<rparr>"

definition bind_err :: "error + 'x \<Rightarrow> ('x \<Rightarrow> error + 'y) \<Rightarrow> error + 'y" where
  "bind_err m f = (case m of Inl e \<Rightarrow> Inl e | Inr x \<Rightarrow> f x)"

definition tick :: "int \<Rightarrow> ('h, 'a) APIContext \<Rightarrow> ('h, 'a) APIContext" where
  "tick n c = c\<lparr> clock := clock c + n \<rparr>"

definition withCancel :: "('h, 'a) APIContext \<Rightarrow> ('h, 'a) APIContext" where
  "withCancel c =
     c\<lparr> ctx := Some (cancelCtx (fresh c) Background),
        cancel := Some (fresh c),
        cancelled := (cancelled c)(fresh c := False),
        fresh := Suc (fresh c) \<rparr>"

definition setCtx ::
  "event list \<Rightarrow> request \<Rightarrow> logger option \<Rightarrow> ('h, 'a) APIContext \<Rightarrow> ('h, 'a) APIContext" where
  "setCtx w0 req l c =
     withCancel (c\<lparr> w := Some w0, r := Some req, log := l, handlers := [],
                    pathParams := Map.empty, wg := Some 0 \<rparr>)"

definition setHandlers :: "'h list \<Rightarrow> ('h, 'a) APIContext \<Rightarrow> ('h, 'a) APIContext" where
  "setHandlers h c = c\<lparr> handlers := h \<rparr>"

definition setMiddleware :: "'h list \<Rightarrow> ('h, 'a) APIContext \<Rightarrow> ('h, 'a) APIContext" where
  "setMiddleware mw c = c\<lparr> handlers := mw @ handlers c \<rparr>"

text \<open>\<^verbatim>\<open>ctx.Error\<close> hands a message to the logger: a nil logger panics, and nothing the
  context holds changes.\<close>

definition Error :: "string \<Rightarrow> ('h, 'a) APIContext \<Rightarrow> error + ('h, 'a) APIContext" where
  "Error msg c = (case log c of None \<Rightarrow> Inl NilPanic | Some l \<Rightarrow> Inr c)"

definition call_cancel :: "('h, 'a) APIContext \<Rightarrow> error + ('h, 'a) APIContext" where
  "call_cancel c =
     (case cancel c of
        None \<Rightarrow> Inl NilPanic
      | Some i \<Rightarrow> Inr (c\<lparr> cancelled := (cancelled c)(i := True) \<rparr>))"

definition writer_calls :: "event list \<Rightarrow> ('h, 'a) APIContext \<Rightarrow> error + ('h, 'a) APIContext" where
  "writer_calls evs c =
     (case w c of
        None \<Rightarrow> Inl NilPanic
      | Some seen \<Rightarrow> Inr (c\<lparr> w := Some (seen @ evs) \<rparr>))"

definition WriteFailure :: "int \<Rightarrow> string \<Rightarrow> ('h, 'a) APIContext \<Rightarrow> error + ('h, 'a) APIContext" where
  "WriteFailure code msg c =
     bind_err (writer_calls [WriteHeader code, Write (ErrorsObject msg)] c) call_cancel"

text \<open>The argument is the result of \<^verbatim>\<open>json.Marshal(data)\<close>; its failure is logged and
  the status and an empty body are written all the same.\<close>

definition SuccessWithData :: "string option \<Rightarrow> ('h, 'a) APIContext \<Rightarrow> error + ('h, 'a) APIContext" where
  "SuccessWithData jsonData c =
     bind_err (if jsonData = None then Error ''failed to json.Marhal'' c else Inr c)
       (writer_calls [WriteHeader 200, Write (Marshalled jsonData)])"

definition reset :: "('h, 'a) APIContext \<Rightarrow> ('h, 'a) APIContext" where
  "reset c =
     c\<lparr> w := None, r := None, handlers := [], log := None, ctx := Some Background,
        wg := Some 0, pathParams := Map.empty \<rparr>"

text \<open>\<^verbatim>\<open>wg.Wait()\<close> returns once the counter is zero. Nothing else runs in this
  sequential reading, so a counter that is not zero is a wait that never returns.\<close>

definition wait :: "('h, 'a) APIContext \<Rightarrow> error + ('h, 'a) APIContext" where
  "wait c =
     (case wg c of
        None \<Rightarrow> Inl NilPanic
      | Some n \<Rightarrow> if n = 0 then Inr c else Inl Blocked)"

text \<open>\<open>Done c\<close> tells whether the channel that \<^verbatim>\<open>ctx.Done()\<close> returns is closed, which is
  what the \<^verbatim>\<open>select\<close> of the worker pool asks, and \<open>Err c\<close> whether \<^verbatim>\<open>ctx.Err()\<close> is
  not nil: the library sets the error when it closes the channel.\<close>

definition Done :: "('h, 'a) APIContext \<Rightarrow> error + bool" where
  "Done c =
     (case ctx c of
        None \<Rightarrow> Inl NilPanic
      | Some g \<Rightarrow> Inr (ctx_done (cancelled c) (clock c) g))"

definition Err :: "('h, 'a) APIContext \<Rightarrow> error + bool" where
  "Err c = Done c"

definition Deadline :: "('h, 'a) APIContext \<Rightarrow> error + int option" where
  "Deadline c = (case ctx c of None \<Rightarrow> Inl NilPanic | Some g \<Rightarrow> Inr (ctx_deadline g))"

definition Value :: "('h, 'a) APIContext \<Rightarrow> 'a \<Rightarrow> error + 'a option" where
  "Value c key = (case ctx c of None \<Rightarrow> Inl NilPanic | Some g \<Rightarrow> Inr (ctx_value g key))"

definition Set :: "'a \<Rightarrow> 'a \<Rightarrow> ('h, 'a) APIContext \<Rightarrow> error + ('h, 'a) APIContext" where
  "Set key val c =
     (case ctx c of
        None \<Rightarrow> Inl NilPanic
      | Some g \<Rightarrow> Inr (c\<lparr> ctx := Some (valueCtx key val g) \<rparr>))"

text \<open>
  \<^verbatim>\<open>context.WithTimeout(parent, d)\<close> is \<^verbatim>\<open>WithDeadline(parent, now + d)\<close>: when the
  parent already has an earlier deadline the new node is a plain cancel node, otherwise
  a timer node with the new deadline. Either way the new node is a child of the
  context's current chain, and \<^verbatim>\<open>cancel\<close> now belongs to the new node.
\<close>

definition WithDeadline :: "'a gctx \<Rightarrow> int \<Rightarrow> nat \<Rightarrow> 'a gctx" where
  "WithDeadline parent dl i =
     (case ctx_deadline parent of
        None \<Rightarrow> timerCtx dl i parent
      | Some cur \<Rightarrow> if cur < dl then cancelCtx i parent else timerCtx dl i parent)"

definition WithTimeout :: "int \<Rightarrow> ('h, 'a) APIContext \<Rightarrow> error + ('h, 'a) APIContext" where
  "WithTimeout d c =
     (case ctx c of
        None \<Rightarrow> Inl NilPanic
      | Some g \<Rightarrow>
          Inr (c\<lparr> ctx := Some (WithDeadline g (clock c + d) (fresh c)),
                  cancel := Some (fresh c),
                  cancelled := (cancelled c)(fresh c := False),
                  fresh := Suc (fresh c) \<rparr>))"

text \<open>\<^verbatim>\<open>GetFromPath\<close> returns the bound segment, the empty string for a name that is not
  bound; the flag is true when the returned error is nil.\<close>

definition GetFromPath :: "('h, 'a) APIContext \<Rightarrow> string \<Rightarrow> error + (string \<times> bool)" where
  "GetFromPath c key =
     (case r c of
        None \<Rightarrow> Inl NilPanic
      | Some req \<Rightarrow>
          if Method req = ''GET''
          then Inr (case pathParams c key of None \<Rightarrow> [] | Some v \<Rightarrow> v, True)
          else Inr ([], False))"


section \<open>The worker pool and the dispatcher\<close>

text \<open>
  A handler is a Go function on the context. Its meaning is a parameter \<open>exec\<close> of
  everything that runs handlers: \<open>exec h c\<close> is the context as \<open>h\<close> leaves it, or the
  panic it ends with.
\<close>

type_synonym ('h, 'a) exec = "'h \<Rightarrow> ('h, 'a) APIContext \<Rightarrow> error + ('h, 'a) APIContext"

definition wg_Add :: "nat \<Rightarrow> ('h, 'a) APIContext \<Rightarrow> error + ('h, 'a) APIContext" where
  "wg_Add k c =
     (case wg c of None \<Rightarrow> Inl NilPanic | Some n \<Rightarrow> Inr (c\<lparr> wg := Some (n + k) \<rparr>))"

definition wg_Done :: "('h, 'a) APIContext \<Rightarrow> error + ('h, 'a) APIContext" where
  "wg_Done c =
     (case wg c of
        None \<Rightarrow> Inl NilPanic
      | Some n \<Rightarrow> if n = 0 then Inl NegativeCounterPanic else Inr (c\<lparr> wg := Some (n - 1) \<rparr>))"

text \<open>
  The loop of the closure that \<^verbatim>\<open>Submit\<close> builds: before each handler the
  \<^verbatim>\<open>select\<close> looks at \<^verbatim>\<open>ctx.Done()\<close>; when it is closed the timeout is logged and
  written and the loop returns, otherwise the handler runs.
\<close>

fun chain_loop :: "('h, 'a) exec \<Rightarrow> 'h list \<Rightarrow> ('h, 'a) APIContext \<Rightarrow> error + ('h, 'a) APIContext" where
  "chain_loop exec [] c = Inr c"
| "chain_loop exec (h # hs) c =
     (case Done c of
        Inl e \<Rightarrow> Inl e
      | Inr fired \<Rightarrow>
          if fired
          then bind_err (Error ''context canceled'' c) (WriteFailure 504 ''request timeout'')
          else bind_err (exec h c) (chain_loop exec hs))"

text \<open>\<^verbatim>\<open>wrappedHandler\<close>: the loop, then the deferred \<^verbatim>\<open>ctx.wg.Done()\<close>.\<close>

definition wrappedHandler ::
  "('h, 'a) exec \<Rightarrow> 'h list \<Rightarrow> ('h, 'a) APIContext \<Rightarrow> error + ('h, 'a) APIContext" where
  "wrappedHandler exec hs c = bind_err (chain_loop exec hs c) wg_Done"

text \<open>
  A \<^verbatim>\<open>Job\<close> pairs the context pointer with the closure; the closure is represented by
  the handlers it captured. \<^verbatim>\<open>Submit\<close> adds one to the context's wait group and sends
  the job; what it returns here is the context after the add and the job sent.
\<close>

record ('h, 'a) Job =
  Context :: "('h, 'a) APIContext option"
  HandlerFunc :: "'h list"

definition Submit ::
  "('h, 'a) APIContext \<Rightarrow> 'h list \<Rightarrow> error + (('h, 'a) APIContext \<times> ('h, 'a) Job)" where
  "Submit c hs =
     bind_err (wg_Add 1 c) (\<lambda>c'. Inr (c', \<lparr> Context = Some c', HandlerFunc = hs \<rparr>))"

text \<open>
  The body of the worker's loop for one job taken from the channel: the closure is
  called only for a context that is not nil and whose \<^verbatim>\<open>Err()\<close> is nil. The result is
  the context as the worker leaves it (\<open>None\<close> for a nil pointer).
\<close>

definition worker_job ::
  "('h, 'a) exec \<Rightarrow> ('h, 'a) Job \<Rightarrow> error + ('h, 'a) APIContext option" where
  "worker_job exec job =
     (case Context job of
        None \<Rightarrow> Inr None
      | Some c \<Rightarrow>
          (case Err c of
             Inl e \<Rightarrow> Inl e
           | Inr failed \<Rightarrow>
               if \<not> failed
               then bind_err (wrappedHandler exec (HandlerFunc job) c) (\<lambda>c'. Inr (Some c'))
               else Inr (Some c)))"

subsection \<open>\<^verbatim>\<open>ServeHTTP\<close>\<close>

text \<open>
  \<^verbatim>\<open>ServeHTTP\<close> up to the call of \<^verbatim>\<open>Submit\<close> (route.go, lines 137 to 173). The
  context \<open>got\<close> is what \<^verbatim>\<open>r.pool.Get()\<close> returned and \<open>w0\<close> the calls the response
  writer has seen so far. The result is the context and, when the route was found, the
  chain to submit; an early \<^verbatim>\<open>return\<close> gives no chain.
\<close>

definition content_type :: event where
  "content_type = HeaderSet ''Content-Type'' ''application/json; charset=utf-8''"

definition log_With :: "string \<times> string \<Rightarrow> ('h, 'a) APIContext \<Rightarrow> error + ('h, 'a) APIContext" where
  "log_With attr c =
     (case log c of None \<Rightarrow> Inl NilPanic | Some l \<Rightarrow> Inr (c\<lparr> log := Some (l @ [attr]) \<rparr>))"

definition route_request ::
  "'h Router \<Rightarrow> event list \<Rightarrow> request \<Rightarrow> ('h, 'a) APIContext
     \<Rightarrow> error + (('h, 'a) APIContext \<times> 'h list option)" where
  "route_request rt w0 req got =
     (let c1 = setCtx w0 req (rlog rt) got
      in bind_err (log_With (''pattern'', Method req @ '' '' @ URL_Path req) c1) (\<lambda>c2.
         bind_err (writer_calls [content_type] c2) (\<lambda>c3.
           (case resolve rt (Method req) (URL_Path req) of
              RouteNotFound \<Rightarrow>
                bind_err (bind_err (Error ''handler not found'' c3)
                            (WriteFailure 400 ''bad gateway''))
                  (\<lambda>c4. Inr (c4, None))
            | MethodNotAllowed \<Rightarrow>
                bind_err (bind_err (Error ''method not allowed'' c3)
                            (WriteFailure 405 ''method not allowed''))
                  (\<lambda>c4. Inr (c4, None))
            | Found hs ps \<Rightarrow>
                Inr (setMiddleware (middleware rt)
                       (setHandlers hs (c3\<lparr> pathParams := ps \<rparr>)), Some hs)))))"

text \<open>
  The deferred function: wait for the wait group, reset, put back. The result is what
  the response writer has received and the context that goes back into the pool.
\<close>

definition release ::
  "('h, 'a) APIContext \<Rightarrow> error + (event list option \<times> ('h, 'a) APIContext)" where
  "release c = bind_err (wait c) (\<lambda>c'. Inr (w c', reset c'))"

text \<open>
  \<^verbatim>\<open>Submit\<close> followed by the worker that takes the job from the channel, and the whole
  of \<^verbatim>\<open>ServeHTTP\<close> with the two goroutines run one after the other: the dispatcher
  up to the send, the worker on the job, the dispatcher's deferred function.
\<close>

definition submit_and_work ::
  "('h, 'a) exec \<Rightarrow> ('h, 'a) APIContext \<Rightarrow> 'h list \<Rightarrow> error + ('h, 'a) APIContext option" where
  "submit_and_work exec c hs = bind_err (Submit c hs) (\<lambda>(c', job). worker_job exec job)"

definition ServeHTTP ::
  "('h, 'a) exec \<Rightarrow> 'h Router \<Rightarrow> event list \<Rightarrow> request \<Rightarrow> ('h, 'a) APIContext
     \<Rightarrow> error + (event list option \<times> ('h, 'a) APIContext)" where
  "ServeHTTP exec rt w0 req got =
     bind_err (route_request rt w0 req got) (\<lambda>(c, found).
       (case found of
          None \<Rightarrow> release c
        | Some hs \<Rightarrow>
            bind_err (submit_and_work exec c hs) (\<lambda>left.
              (case left of None \<Rightarrow> Inl NilPanic | Some c' \<Rightarrow> release c'))))"

section \<open>Notions used to state the properties\<close>

subsection \<open>A request path that fits a registered pattern\<close>






subsection \<open>Registrations that follow a registration\<close>

text \<open>
  \<open>registered_since keys m rt1 rt2\<close>: the router \<open>rt2\<close> is \<open>rt1\<close> after any number of
  further calls of \<^verbatim>\<open>handle\<close> on the same trie, each with the middleware and prefix of
  the router or group it is called on, none of which stores under the method \<open>m\<close> at
  the node that the keys \<open>keys\<close> lead to. (A call that does replaces the chain stored
  there: line 132 is an assignment.)
\<close>

inductive registered_since :: "string list \<Rightarrow> string \<Rightarrow> 'h Router \<Rightarrow> 'h Router \<Rightarrow> bool"
  for keys :: "string list" and m :: string and rt1 :: "'h Router" where
  nothing_since: "registered_since keys m rt1 rt1"
| one_more: "registered_since keys m rt1 rt2 \<Longrightarrow>
     handle (rt2\<lparr> middleware := mw, prefix := pre \<rparr>) m' p' hs' = Inr rt3 \<Longrightarrow>
     map child_key (path_parts (pre @ p')) \<noteq> keys \<or> m' \<noteq> m \<Longrightarrow>
     registered_since keys m rt1 rt3"

subsection \<open>What a list does not show of a slice\<close>

text \<open>
  A Go slice is a window of a length and a capacity on an array, and
  \<^verbatim>\<open>append(s, xs...)\<close> writes \<open>xs\<close> into the array behind \<open>s\<close>, right after the window,
  whenever the capacity has room for them; the slice it returns is a longer window on
  the same array. (Without room it copies into a new array, of a capacity the runtime
  chooses.) So the chain that line 129 builds for a router with middleware can lie in
  the array of \<^verbatim>\<open>r.middleware\<close>, where the next \<^verbatim>\<open>append\<close> to that slice writes
  again. A chain registered on a router without middleware is the caller's own slice:
  line 129 is not run for it, and no \<^verbatim>\<open>append\<close> of the package writes behind it.
\<close>

record slice =
  s_array :: nat
  s_len :: nat
  s_cap :: nat

definition slice_elems :: "(nat \<Rightarrow> 'h list) \<Rightarrow> slice \<Rightarrow> 'h list" where
  "slice_elems mem s = take (s_len s) (mem (s_array s))"

definition append_in_place ::
  "(nat \<Rightarrow> 'h list) \<Rightarrow> slice \<Rightarrow> 'h list \<Rightarrow> (nat \<Rightarrow> 'h list) \<times> slice" where
  "append_in_place mem s xs =
     (mem(s_array s := take (s_len s) (mem (s_array s)) @ xs
                        @ drop (s_len s + length xs) (mem (s_array s))),
      s\<lparr> s_len := s_len s + length xs \<rparr>)"

subsection \<open>A context between \<^verbatim>\<open>setCtx\<close> and \<^verbatim>\<open>reset\<close>\<close>

text \<open>
  What \<^verbatim>\<open>setCtx\<close> establishes and every method a handler can call keeps: there is a
  chain, its node numbers are below the next unused number, and the cancel function
  belongs to a node of the chain.
\<close>

definition in_request :: "('h, 'a) APIContext \<Rightarrow> bool" where
  "in_request c =
     (case ctx c of
        None \<Rightarrow> False
      | Some g \<Rightarrow>
          (\<forall>j\<in>ctx_ids g. j < fresh c)
          \<and> (case cancel c of None \<Rightarrow> False | Some i \<Rightarrow> i \<in> ctx_ids g))"

subsection \<open>Routers and contexts of the examples\<close>

text \<open>Handlers are named by strings in the examples.\<close>

definition example_users :: "string Router" where
  "example_users =
     after_handle (after_handle (NewRouter (Some [])) ''GET'' ''/users/:id'' [''byId''])
       ''GET'' ''/users/me'' [''me'']"

definition example_users_node :: "string node" where
  "example_users_node = the (children (root example_users) ''users'')"







definition example_request :: "string \<Rightarrow> string \<Rightarrow> request" where
  "example_request m u = \<lparr> Method = m, URL_Path = u \<rparr>"

definition example_ctx :: "(string, string) APIContext" where
  "example_ctx =
     setCtx [] (example_request ''GET'' ''/users/42'') (Some [])
       (zero_APIContext 0 (\<lambda>i. False) 0)"

text \<open>The same context after its cancel function was called, and after two timeouts
  of 1 and of 10 were set at time 0.\<close>

definition example_cancelled :: "(string, string) APIContext" where
  "example_cancelled = projr (call_cancel example_ctx)"

definition example_rearmed :: "error + (string, string) APIContext" where
  "example_rearmed = bind_err (WithTimeout 1 example_ctx) (WithTimeout 10)"

definition Done_after :: "int \<Rightarrow> ('h, 'a) APIContext \<Rightarrow> error + bool" where
  "Done_after n c = Done (tick n c)"

text \<open>A meaning for the handlers of the examples: the handler called \<^verbatim>\<open>fail\<close> answers
  with a failure, every other handler answers with its own name.\<close>

definition example_exec :: "(string, string) exec" where
  "example_exec h c =
     (if h = ''fail'' then WriteFailure 400 ''invalid request'' c
      else SuccessWithData (Some h) c)"




section \<open>One request, two goroutines\<close>

text \<open>
  \<^verbatim>\<open>ServeHTTP\<close> runs in the goroutine of the request, the chain runs in a worker, and
  both hold the same context. After \<^verbatim>\<open>route_request\<close> the dispatcher is about to call
  \<^verbatim>\<open>wg.Add(1)\<close> (\<open>D_Add\<close>), then sends the job (\<open>D_Send\<close>), then, in its deferred
  function, waits (\<open>D_Wait\<close>), resets (\<open>D_Reset\<close>) and puts the context back
  (\<open>D_Put\<close>); a request whose lookup failed starts at \<open>D_Wait\<close>. A worker is idle, or
  inside the loop of the closure with the handlers still to run, or at the deferred
  \<^verbatim>\<open>wg.Done()\<close>. \<open>jobs\<close> is what the channel holds for this context.
\<close>

datatype 'h dispatcher = D_Add "'h list" | D_Send "'h list" | D_Wait | D_Reset | D_Put | D_Returned

datatype 'h worker = W_Idle | W_Chain "'h list" | W_Defer

record ('h, 'a) lifecycle =
  shared :: "('h, 'a) APIContext"
  jobs :: "'h list list"
  disp :: "'h dispatcher"
  work :: "'h worker"
  in_pool :: bool

definition start :: "('h, 'a) APIContext \<Rightarrow> 'h list option \<Rightarrow> ('h, 'a) lifecycle" where
  "start c found =
     \<lparr> shared = c, jobs = [],
       disp = (case found of None \<Rightarrow> D_Wait | Some hs \<Rightarrow> D_Add hs),
       work = W_Idle, in_pool = False \<rparr>"

text \<open>
  One step of either goroutine, or of the clock. A step whose call panics is no step.
  The send is taken when the channel has room; the worker's guard decides between
  \<open>take_run\<close> and \<open>take_skip\<close>; \<open>stop_chain\<close> is the branch of the \<^verbatim>\<open>select\<close> that
  writes the timeout; \<open>wait_returns\<close> is possible only with the counter at zero.
\<close>

inductive step :: "('h, 'a) exec \<Rightarrow> ('h, 'a) lifecycle \<Rightarrow> ('h, 'a) lifecycle \<Rightarrow> bool"
  for exec :: "('h, 'a) exec" where
  add: "disp s = D_Add hs \<Longrightarrow> wg_Add 1 (shared s) = Inr c' \<Longrightarrow>
        step exec s (s\<lparr> shared := c', disp := D_Send hs \<rparr>)"
| send: "disp s = D_Send hs \<Longrightarrow>
        step exec s (s\<lparr> jobs := jobs s @ [hs], disp := D_Wait \<rparr>)"
| take_run: "work s = W_Idle \<Longrightarrow> jobs s = hs # rest \<Longrightarrow> Err (shared s) = Inr False \<Longrightarrow>
        step exec s (s\<lparr> jobs := rest, work := W_Chain hs \<rparr>)"
| take_skip: "work s = W_Idle \<Longrightarrow> jobs s = hs # rest \<Longrightarrow> Err (shared s) = Inr True \<Longrightarrow>
        step exec s (s\<lparr> jobs := rest \<rparr>)"
| run_handler: "work s = W_Chain (h # hs) \<Longrightarrow> Done (shared s) = Inr False \<Longrightarrow>
        exec h (shared s) = Inr c' \<Longrightarrow>
        step exec s (s\<lparr> shared := c', work := W_Chain hs \<rparr>)"
| stop_chain: "work s = W_Chain (h # hs) \<Longrightarrow> Done (shared s) = Inr True \<Longrightarrow>
        bind_err (Error ''context canceled'' (shared s))
          (WriteFailure 504 ''request timeout'') = Inr c' \<Longrightarrow>
        step exec s (s\<lparr> shared := c', work := W_Defer \<rparr>)"
| end_chain: "work s = W_Chain [] \<Longrightarrow> step exec s (s\<lparr> work := W_Defer \<rparr>)"
| wg_done: "work s = W_Defer \<Longrightarrow> wg_Done (shared s) = Inr c' \<Longrightarrow>
        step exec s (s\<lparr> shared := c', work := W_Idle \<rparr>)"
| time_passes: "0 \<le> n \<Longrightarrow> step exec s (s\<lparr> shared := tick n (shared s) \<rparr>)"
| wait_returns: "disp s = D_Wait \<Longrightarrow> wait (shared s) = Inr c' \<Longrightarrow>
        step exec s (s\<lparr> disp := D_Reset \<rparr>)"
| do_reset: "disp s = D_Reset \<Longrightarrow>
        step exec s (s\<lparr> shared := reset (shared s), disp := D_Put \<rparr>)"
| put_back: "disp s = D_Put \<Longrightarrow> step exec s (s\<lparr> in_pool := True, disp := D_Returned \<rparr>)"

inductive reachable :: "('h, 'a) exec \<Rightarrow> ('h, 'a) lifecycle \<Rightarrow> ('h, 'a) lifecycle \<Rightarrow> bool"
  for exec :: "('h, 'a) exec" and s0 :: "('h, 'a) lifecycle" where
  r_init: "reachable exec s0 s0"
| r_step: "reachable exec s0 s \<Longrightarrow> step exec s s' \<Longrightarrow> reachable exec s0 s'"

text \<open>The job of the context is outstanding while it waits in the channel or a worker
  is on it. Handlers live outside the package and cannot reach the unexported wait
  group: \<open>keeps_wg\<close>.\<close>

definition outstanding :: "('h, 'a) lifecycle \<Rightarrow> bool" where
  "outstanding s = (jobs s \<noteq> [] \<or> work s \<noteq> W_Idle)"

definition keeps_wg :: "('h, 'a) exec \<Rightarrow> bool" where
  "keeps_wg exec = (\<forall>h c c'. exec h c = Inr c' \<longrightarrow> wg c' = wg c)"

definition lifecycle_inv :: "('h, 'a) lifecycle \<Rightarrow> bool" where
  "lifecycle_inv s =
     (case disp s of
        D_Add hs \<Rightarrow> wg (shared s) = Some 0 \<and> \<not> outstanding s \<and> \<not> in_pool s
      | D_Send hs \<Rightarrow> wg (shared s) = Some 1 \<and> \<not> outstanding s \<and> \<not> in_pool s
      | D_Wait \<Rightarrow> \<not> in_pool s \<and> (outstanding s \<longrightarrow> wg (shared s) = Some 1)
                  \<and> (jobs s \<noteq> [] \<longrightarrow> work s = W_Idle \<and> length (jobs s) = 1)
      | D_Reset \<Rightarrow> \<not> outstanding s \<and> \<not> in_pool s
      | D_Put \<Rightarrow> \<not> outstanding s \<and> \<not> in_pool s
      | D_Returned \<Rightarrow> \<not> outstanding s)"


section \<open>Properties of registration and resolution\<close>

lemmas route_defs =
  Let_def after_handle_def handle_def NewRouter_def Use_def resolve_def path_parts_def
  Trim_def child_key_def new_child_def HasPrefix_def

lemma bind_err_simps [simp]:
  "bind_err (Inr x) f = f x"
  "bind_err (Inl e) f = Inl e"
  by (simp_all add: bind_err_def)

text \<open>A path always has at least one part, so the store of line 132 never hits the
  root, whose handler map is nil.\<close>

lemma path_parts_nonempty: "path_parts p \<noteq> []"
proof -
  have "Split s sep \<noteq> []" for s sep
    by (induction s) (auto split: list.splits)
  then show ?thesis by (simp add: path_parts_def)
qed

subsection \<open>Registration without handlers\<close>

text \<open>
  Claim C10. \<^verbatim>\<open>handle\<close> called with no handler panics, whatever the method and the
  path, before it has touched the trie: the router is what it was. Called with at
  least one handler it does not panic and returns the router with the route stored.
\<close>

theorem handle_zero_handlers:
  "handle rt method p [] = Inl (HandlersPanic (''0 handlers for path: '' @ method @ '' '' @ p))
   \<and> after_handle rt method p [] = rt
   \<and> (hs \<noteq> [] \<longrightarrow>
        handle rt method p hs =
          Inr (rt\<lparr> root := insert_route (root rt) (path_parts (prefix rt @ p)) method
                               (middleware rt @ hs) \<rparr>))"
  by (auto simp: handle_def after_handle_def Let_def)

theorem handle_zero_handlers_witness:
  "[''byId''] \<noteq> []
   \<and> (\<exists>rt'. handle (NewRouter None) ''GET'' ''/a'' [''byId''] = Inr rt'
          \<and> resolve rt' ''GET'' ''/a'' = Found [''byId''] Map.empty)
   \<and> handle (NewRouter None :: string Router) ''GET'' ''/a'' []
       = Inl (HandlersPanic ''0 handlers for path: GET /a'')
   \<and> after_handle (NewRouter None :: string Router) ''GET'' ''/a'' [] = NewRouter None"
proof -
  let ?rt = "NewRouter None :: string Router"
  have ne: "[''byId''] \<noteq> []" by simp
  note inst = handle_zero_handlers [of ?rt "''GET''" "''/a''" "[''byId'']"]
  from inst ne have stored: "handle ?rt ''GET'' ''/a'' [''byId'']
      = Inr (?rt\<lparr> root := insert_route (root ?rt) (path_parts (prefix ?rt @ ''/a'')) ''GET''
                          (middleware ?rt @ [''byId'']) \<rparr>)"
    by (elim conjE) (erule mp)
  have found: "resolve (?rt\<lparr> root := insert_route (root ?rt) (path_parts (prefix ?rt @ ''/a''))
                  ''GET'' (middleware ?rt @ [''byId'']) \<rparr>) ''GET'' ''/a''
               = Found [''byId''] Map.empty"
    by (simp add: route_defs)
  from inst have panic: "handle ?rt ''GET'' ''/a'' []
      = Inl (HandlersPanic ''0 handlers for path: GET /a'')"
    by simp
  from inst have same: "after_handle ?rt ''GET'' ''/a'' [] = ?rt" by simp
  from ne stored found panic same show ?thesis by simp
qed

subsection \<open>A literal child before the capture\<close>

text \<open>
  Claim C4. At a node that has both a child under the request's segment and a child
  under \<^verbatim>\<open>*\<close>, the lookup goes on in the literal child with the bindings it had: the
  segment is not bound. The example of the claim is the witness: with
  \<^verbatim>\<open>/users/:id\<close> and \<^verbatim>\<open>/users/me\<close> registered, \<^verbatim>\<open>GET /users/me\<close> finds the chain of
  \<^verbatim>\<open>me\<close> and binds nothing.
\<close>

theorem literal_child_first:
  assumes "children current part = Some lit" and "children current ''*'' = Some paramChild"
  shows "walk current (part # parts) ps = walk lit parts ps"
  using assms by simp

theorem literal_child_first_witness:
  "\<exists>lit paramChild.
     children example_users_node ''me'' = Some lit
     \<and> children example_users_node ''*'' = Some paramChild
     \<and> paramName paramChild = ''id''
     \<and> handler lit ''GET'' = Some [''me'']
     \<and> walk example_users_node [''me''] Map.empty = Some (lit, Map.empty)
     \<and> resolve example_users ''GET'' ''/users/me'' = Found [''me''] Map.empty"
proof -
  define lit :: "string node"
    where "lit = Node ''me'' [''GET'' \<mapsto> [''me'']] Map.empty False []"
  define pc :: "string node"
    where "pc = Node ''*'' [''GET'' \<mapsto> [''byId'']] Map.empty True ''id''"
  have a: "children example_users_node ''me'' = Some lit"
    by (simp add: example_users_node_def example_users_def lit_def route_defs)
  have b: "children example_users_node ''*'' = Some pc"
    by (simp add: example_users_node_def example_users_def pc_def route_defs)
  have c: "walk example_users_node [''me''] Map.empty = Some (lit, Map.empty)"
    using literal_child_first [OF a b, of "[]" Map.empty] by simp
  have d: "resolve example_users ''GET'' ''/users/me'' = Found [''me''] Map.empty"
    by (simp add: example_users_def route_defs)
  show ?thesis using a b c d by (auto simp: lit_def pc_def)
qed

subsection \<open>A registered route resolves\<close>

lemma insert_route_sel [simp]:
  "paramName (insert_route current parts method hs) = paramName current"
  "path (insert_route current parts method hs) = path current"
  "isParam (insert_route current parts method hs) = isParam current"
  by (cases parts; simp add: Let_def)+








text \<open>The second of two appends that fit writes where the first one wrote: the chain
  that the first returned now ends with the handler of the second.\<close>

lemma append_in_place_twice:
  assumes "s_len s + 1 \<le> s_cap s" and "s_cap s \<le> length (mem (s_array s))"
  shows "slice_elems (fst (append_in_place mem s [x])) (snd (append_in_place mem s [x]))
           = slice_elems mem s @ [x]
       \<and> slice_elems (fst (append_in_place (fst (append_in_place mem s [x])) s [y]))
           (snd (append_in_place mem s [x]))
           = slice_elems mem s @ [y]"
  using assms by (simp add: append_in_place_def slice_elems_def)




subsection \<open>The two ways a lookup fails\<close>

lemma walk_append:
  "walk current (xs @ ys) ps =
     (case walk current xs ps of None \<Rightarrow> None | Some (n, ps') \<Rightarrow> walk n ys ps')"
  by (induction xs arbitrary: current ps) (auto split: option.splits)

lemma walk_None_iff:
  "walk current parts ps = None \<longleftrightarrow>
     (\<exists>pre seg post n ps'. parts = pre @ seg # post \<and> walk current pre ps = Some (n, ps')
        \<and> children n seg = None \<and> children n ''*'' = None)"
proof
  show "walk current parts ps = None \<Longrightarrow>
     \<exists>pre seg post n ps'. parts = pre @ seg # post \<and> walk current pre ps = Some (n, ps')
        \<and> children n seg = None \<and> children n ''*'' = None"
  proof (induction parts arbitrary: current ps)
    case Nil
    then show ?case by simp
  next
    case (Cons seg parts)
    show ?case
    proof (cases "children current seg")
      case (Some child)
      with Cons.prems have "walk child parts ps = None" by simp
      from Cons.IH [OF this] obtain pre s post n ps' where
        "parts = pre @ s # post" "walk child pre ps = Some (n, ps')"
        "children n s = None" "children n ''*'' = None" by blast
      with Some have "seg # parts = (seg # pre) @ s # post
        \<and> walk current (seg # pre) ps = Some (n, ps')
        \<and> children n s = None \<and> children n ''*'' = None" by simp
      then show ?thesis by blast
    next
      case None
      show ?thesis
      proof (cases "children current ''*''")
        case (Some pc)
        with None Cons.prems have "walk pc parts (ps(paramName pc \<mapsto> seg)) = None" by simp
        from Cons.IH [OF this] obtain pre s post n ps' where
          "parts = pre @ s # post" "walk pc pre (ps(paramName pc \<mapsto> seg)) = Some (n, ps')"
          "children n s = None" "children n ''*'' = None" by blast
        with Some None have "seg # parts = (seg # pre) @ s # post
          \<and> walk current (seg # pre) ps = Some (n, ps')
          \<and> children n s = None \<and> children n ''*'' = None" by simp
        then show ?thesis by blast
      next
        case no_param: None
        with None have "seg # parts = [] @ seg # parts
          \<and> walk current [] ps = Some (current, ps)
          \<and> children current seg = None \<and> children current ''*'' = None" by simp
        then show ?thesis by blast
      qed
    qed
  qed
next
  assume "\<exists>pre seg post n ps'. parts = pre @ seg # post \<and> walk current pre ps = Some (n, ps')
        \<and> children n seg = None \<and> children n ''*'' = None"
  then show "walk current parts ps = None"
    by (auto simp: walk_append)
qed

lemmas dispatch_defs =
  route_request_def setCtx_def withCancel_def log_With_def writer_calls_def Error_def
  WriteFailure_def call_cancel_def setMiddleware_def setHandlers_def

lemma route_request_not_found:
  assumes "rlog rt = Some l" and "resolve rt (Method req) (URL_Path req) = RouteNotFound"
  shows "\<exists>c. route_request rt w0 req got = Inr (c, None) \<and> wg c = Some 0
           \<and> w c = Some (w0 @ [content_type, WriteHeader 400,
                                 Write (ErrorsObject ''bad gateway'')])"
  using assms by (simp add: dispatch_defs)

lemma route_request_not_allowed:
  assumes "rlog rt = Some l" and "resolve rt (Method req) (URL_Path req) = MethodNotAllowed"
  shows "\<exists>c. route_request rt w0 req got = Inr (c, None) \<and> wg c = Some 0
           \<and> w c = Some (w0 @ [content_type, WriteHeader 405,
                                 Write (ErrorsObject ''method not allowed'')])"
  using assms by (simp add: dispatch_defs)

lemma route_request_found:
  assumes "rlog rt = Some l" and "resolve rt (Method req) (URL_Path req) = Found hs ps"
  shows "\<exists>c. route_request rt w0 req got = Inr (c, Some hs)
           \<and> w c = Some (w0 @ [content_type]) \<and> pathParams c = ps"
  using assms by (simp add: dispatch_defs)

lemma ServeHTTP_early_return:
  assumes "route_request rt w0 req got = Inr (c, None)" and "wg c = Some 0"
  shows "ServeHTTP exec rt w0 req got = Inr (w c, reset c)"
  using assms by (simp add: ServeHTTP_def release_def wait_def)

text \<open>
  Claim C5. The lookup fails in two ways and no third. It ends as not found exactly when
  some segment of the request path has, at the node reached before it, neither a child
  under the segment nor a child under \<^verbatim>\<open>*\<close>; then \<^verbatim>\<open>ServeHTTP\<close> writes status 400
  with the errors object. It ends as method not allowed exactly when all segments lead
  to a node that has no chain under the request's method; then \<^verbatim>\<open>ServeHTTP\<close> writes
  status 405. When the node has a chain under the method, the dispatcher writes only the
  content type and hands that chain on: neither failure is written.
\<close>

theorem two_resolution_failures:
  assumes "rlog rt = Some l"
  shows "(resolve rt (Method req) (URL_Path req) = RouteNotFound \<longleftrightarrow>
            (\<exists>pre seg post n ps. path_parts (URL_Path req) = pre @ seg # post
               \<and> walk (root rt) pre Map.empty = Some (n, ps)
               \<and> children n seg = None \<and> children n ''*'' = None))
       \<and> (resolve rt (Method req) (URL_Path req) = MethodNotAllowed \<longleftrightarrow>
            (\<exists>n ps. walk (root rt) (path_parts (URL_Path req)) Map.empty = Some (n, ps)
               \<and> handler n (Method req) = None))
       \<and> (resolve rt (Method req) (URL_Path req) = RouteNotFound \<longrightarrow>
            (\<exists>c. ServeHTTP exec rt w0 req got =
                   Inr (Some (w0 @ [content_type, WriteHeader 400,
                                    Write (ErrorsObject ''bad gateway'')]), c)))
       \<and> (resolve rt (Method req) (URL_Path req) = MethodNotAllowed \<longrightarrow>
            (\<exists>c. ServeHTTP exec rt w0 req got =
                   Inr (Some (w0 @ [content_type, WriteHeader 405,
                                    Write (ErrorsObject ''method not allowed'')]), c)))
       \<and> (\<forall>hs ps. resolve rt (Method req) (URL_Path req) = Found hs ps \<longrightarrow>
            (\<exists>c. route_request rt w0 req got = Inr (c, Some hs)
                 \<and> w c = Some (w0 @ [content_type]) \<and> pathParams c = ps))"
proof -
  let ?res = "resolve rt (Method req) (URL_Path req)"
  have A: "?res = RouteNotFound \<longleftrightarrow>
            (\<exists>pre seg post n ps. path_parts (URL_Path req) = pre @ seg # post
               \<and> walk (root rt) pre Map.empty = Some (n, ps)
               \<and> children n seg = None \<and> children n ''*'' = None)"
  proof -
    have "?res = RouteNotFound \<longleftrightarrow> walk (root rt) (path_parts (URL_Path req)) Map.empty = None"
      by (auto simp: resolve_def split: option.splits)
    then show ?thesis by (simp only: walk_None_iff)
  qed
  have B: "?res = MethodNotAllowed \<longleftrightarrow>
            (\<exists>n ps. walk (root rt) (path_parts (URL_Path req)) Map.empty = Some (n, ps)
               \<and> handler n (Method req) = None)"
    by (auto simp: resolve_def split: option.splits)
  have C: "?res = RouteNotFound \<longrightarrow>
            (\<exists>c. ServeHTTP exec rt w0 req got =
                   Inr (Some (w0 @ [content_type, WriteHeader 400,
                                    Write (ErrorsObject ''bad gateway'')]), c))"
  proof
    assume "?res = RouteNotFound"
    from route_request_not_found [OF assms this, of w0 got] obtain c where
      "route_request rt w0 req got = Inr (c, None)" "wg c = Some 0"
      "w c = Some (w0 @ [content_type, WriteHeader 400, Write (ErrorsObject ''bad gateway'')])"
      by blast
    with ServeHTTP_early_return [of rt w0 req got c exec] show "\<exists>c. ServeHTTP exec rt w0 req got =
        Inr (Some (w0 @ [content_type, WriteHeader 400, Write (ErrorsObject ''bad gateway'')]), c)"
      by simp
  qed
  have D: "?res = MethodNotAllowed \<longrightarrow>
            (\<exists>c. ServeHTTP exec rt w0 req got =
                   Inr (Some (w0 @ [content_type, WriteHeader 405,
                                    Write (ErrorsObject ''method not allowed'')]), c))"
  proof
    assume "?res = MethodNotAllowed"
    from route_request_not_allowed [OF assms this, of w0 got] obtain c where
      "route_request rt w0 req got = Inr (c, None)" "wg c = Some 0"
      "w c = Some (w0 @ [content_type, WriteHeader 405,
                         Write (ErrorsObject ''method not allowed'')])"
      by blast
    with ServeHTTP_early_return [of rt w0 req got c exec] show "\<exists>c. ServeHTTP exec rt w0 req got =
        Inr (Some (w0 @ [content_type, WriteHeader 405,
                         Write (ErrorsObject ''method not allowed'')]), c)"
      by simp
  qed
  have E: "\<forall>hs ps. ?res = Found hs ps \<longrightarrow>
            (\<exists>c. route_request rt w0 req got = Inr (c, Some hs)
                 \<and> w c = Some (w0 @ [content_type]) \<and> pathParams c = ps)"
    using route_request_found [OF assms] by blast
  from A B C D E show ?thesis by blast
qed

theorem two_resolution_failures_witness:
  "rlog example_users = Some []
   \<and> resolve example_users ''GET'' ''/nothing'' = RouteNotFound
   \<and> (\<exists>c. ServeHTTP example_exec example_users [] (example_request ''GET'' ''/nothing'')
             (zero_APIContext 0 (\<lambda>i. False) 0) =
           Inr (Some [content_type, WriteHeader 400, Write (ErrorsObject ''bad gateway'')], c))
   \<and> resolve example_users ''POST'' ''/users/42'' = MethodNotAllowed
   \<and> (\<exists>c. ServeHTTP example_exec example_users [] (example_request ''POST'' ''/users/42'')
             (zero_APIContext 0 (\<lambda>i. False) 0) =
           Inr (Some [content_type, WriteHeader 405,
                      Write (ErrorsObject ''method not allowed'')], c))
   \<and> resolve example_users ''GET'' ''/users/42'' = Found [''byId''] [''id'' \<mapsto> ''42'']
   \<and> (\<exists>c. route_request example_users [] (example_request ''GET'' ''/users/42'')
             (zero_APIContext 0 (\<lambda>i. False) 0 :: (string, string) APIContext) =
           Inr (c, Some [''byId''])
         \<and> w c = Some [content_type] \<and> pathParams c = [''id'' \<mapsto> ''42''])"
proof -
  let ?got = "zero_APIContext 0 (\<lambda>i. False) 0 :: (string, string) APIContext"
  have lg: "rlog example_users = Some []"
    by (simp add: example_users_def route_defs)
  have r1: "resolve example_users (Method (example_request ''GET'' ''/nothing''))
              (URL_Path (example_request ''GET'' ''/nothing'')) = RouteNotFound"
    by (simp add: example_users_def example_request_def route_defs)
  have r2: "resolve example_users (Method (example_request ''POST'' ''/users/42''))
              (URL_Path (example_request ''POST'' ''/users/42'')) = MethodNotAllowed"
    by (simp add: example_users_def example_request_def route_defs)
  have r3: "resolve example_users (Method (example_request ''GET'' ''/users/42''))
              (URL_Path (example_request ''GET'' ''/users/42''))
            = Found [''byId''] [''id'' \<mapsto> ''42'']"
    by (simp add: example_users_def example_request_def route_defs)
  from two_resolution_failures [OF lg, of "example_request ''GET'' ''/nothing''"
      example_exec "[]" ?got] r1
  have a: "\<exists>c. ServeHTTP example_exec example_users [] (example_request ''GET'' ''/nothing'')
             ?got =
           Inr (Some [content_type, WriteHeader 400, Write (ErrorsObject ''bad gateway'')], c)"
    by simp
  from two_resolution_failures [OF lg, of "example_request ''POST'' ''/users/42''"
      example_exec "[]" ?got] r2
  have b: "\<exists>c. ServeHTTP example_exec example_users [] (example_request ''POST'' ''/users/42'')
             ?got =
           Inr (Some [content_type, WriteHeader 405,
                      Write (ErrorsObject ''method not allowed'')], c)"
    by simp
  from two_resolution_failures [OF lg, of "example_request ''GET'' ''/users/42''"
      example_exec "[]" ?got] r3
  have c: "\<exists>c. route_request example_users [] (example_request ''GET'' ''/users/42'') ?got =
           Inr (c, Some [''byId''])
         \<and> w c = Some [content_type] \<and> pathParams c = [''id'' \<mapsto> ''42'']"
    by simp
  from lg r1 r2 r3 a b c show ?thesis by (simp add: example_request_def)
qed


section \<open>Properties of the request context\<close>

lemmas example_ctx_defs =
  example_ctx_def example_request_def setCtx_def withCancel_def zero_APIContext_def

lemma ctx_done_fired: "i \<in> ctx_ids g \<Longrightarrow> fl i \<Longrightarrow> ctx_done fl now g"
  by (induction g) auto

lemma ctx_done_other: "i \<notin> ctx_ids g \<Longrightarrow> ctx_done (fl(i := b)) now g = ctx_done fl now g"
  by (induction g) auto

lemma ctx_done_deadline: "ctx_deadline g = Some cur \<Longrightarrow> cur \<le> now \<Longrightarrow> ctx_done fl now g"
  by (induction g) auto

subsection \<open>A context taken from the pool again\<close>

text \<open>
  Claim C7. \<^verbatim>\<open>reset\<close> itself clears the context that a request leaves behind: whatever
  it held, after \<^verbatim>\<open>reset\<close> no parameter is bound and no handler attached, \<^verbatim>\<open>Value\<close> finds
  nothing under any key, there is no deadline, the cancellation signal has not fired and
  does not fire with time, writer, request and logger are nil and the wait group is a
  new one. And after \<^verbatim>\<open>reset\<close>, any time in the pool, and \<^verbatim>\<open>setCtx\<close> for the next
  request, the context is the one that \<^verbatim>\<open>setCtx\<close> makes of a new \<^verbatim>\<open>&APIContext{}\<close>: no
  parameter, no handler, no value, no deadline, and a cancellation signal that has not
  fired and does not fire with time.
\<close>

theorem reused_context_is_clean:
  "setCtx w0 req l (tick n (reset c))
     = setCtx w0 req l (zero_APIContext (clock c + n) (cancelled c) (fresh c))
   \<and> pathParams (setCtx w0 req l (tick n (reset c))) = Map.empty
   \<and> handlers (setCtx w0 req l (tick n (reset c))) = []
   \<and> GetFromPath (setCtx w0 req l (tick n (reset c))) name = Inr ([], Method req = ''GET'')
   \<and> Value (setCtx w0 req l (tick n (reset c))) key = Inr None
   \<and> Deadline (setCtx w0 req l (tick n (reset c))) = Inr None
   \<and> Done (tick k (setCtx w0 req l (tick n (reset c)))) = Inr False
   \<and> pathParams (reset c) = Map.empty
   \<and> handlers (reset c) = []
   \<and> Value (reset c) key = Inr None
   \<and> Deadline (reset c) = Inr None
   \<and> Done (tick k (reset c)) = Inr False
   \<and> w (reset c) = None \<and> r (reset c) = None \<and> log (reset c) = None
   \<and> wg (reset c) = Some 0"
  by (simp add: setCtx_def withCancel_def reset_def tick_def zero_APIContext_def
        Value_def Deadline_def Done_def GetFromPath_def)

theorem reused_context_is_clean_witness:
  "bind_err (bind_err (Set ''user'' ''alice'' example_ctx) (WithTimeout 5))
     (\<lambda>c. Value c ''user'') = Inr (Some ''alice'')
   \<and> bind_err (bind_err (Set ''user'' ''alice'' example_ctx) (WithTimeout 5)) Deadline
       = Inr (Some 5)
   \<and> Value (reset (projr (bind_err (Set ''user'' ''alice'' example_ctx) (WithTimeout 5))))
        ''user'' = Inr None
   \<and> Deadline (reset (projr (bind_err (Set ''user'' ''alice'' example_ctx) (WithTimeout 5))))
       = Inr None
   \<and> Done (tick 100
        (reset (projr (bind_err (Set ''user'' ''alice'' example_ctx) (WithTimeout 5)))))
       = Inr False
   \<and> Value (setCtx [] (example_request ''GET'' ''/'') None
        (tick 7 (reset (projr (bind_err (Set ''user'' ''alice'' example_ctx) (WithTimeout 5))))))
        ''user'' = Inr None
   \<and> Deadline (setCtx [] (example_request ''GET'' ''/'') None
        (tick 7 (reset (projr (bind_err (Set ''user'' ''alice'' example_ctx) (WithTimeout 5))))))
       = Inr None
   \<and> Done (tick 100 (setCtx [] (example_request ''GET'' ''/'') None
        (tick 7 (reset (projr (bind_err (Set ''user'' ''alice'' example_ctx) (WithTimeout 5)))))))
       = Inr False"
proof -
  let ?old = "projr (bind_err (Set ''user'' ''alice'' example_ctx) (WithTimeout 5))"
  have before: "bind_err (bind_err (Set ''user'' ''alice'' example_ctx) (WithTimeout 5))
       (\<lambda>c. Value c ''user'') = Inr (Some ''alice'')"
    "bind_err (bind_err (Set ''user'' ''alice'' example_ctx) (WithTimeout 5)) Deadline
       = Inr (Some 5)"
    by (simp_all add: example_ctx_defs Set_def WithTimeout_def WithDeadline_def Value_def
          Deadline_def)
  note after = reused_context_is_clean [of "[]" "example_request ''GET'' ''/''" None 7 ?old
      "''id''" "''user''" 100]
  from before after show ?thesis by blast
qed

subsection \<open>What holds of a context while its request runs\<close>

lemma ctx_done_later: "ctx_done fl now g \<Longrightarrow> now \<le> now' \<Longrightarrow> ctx_done fl now' g"
  by (induction g) auto

lemma ctx_done_more: "ctx_done fl now g \<Longrightarrow> ctx_done (fl(i := True)) now g"
  by (induction g) auto

lemma WithDeadline_ids [simp]: "ctx_ids (WithDeadline g dl i) = insert i (ctx_ids g)"
  by (simp add: WithDeadline_def split: option.splits)

lemma WithDeadline_done:
  "ctx_done fl t (WithDeadline g dl i) = (fl i \<or> dl \<le> t \<or> ctx_done fl t g)"
proof (cases "ctx_deadline g")
  case None
  then show ?thesis by (simp add: WithDeadline_def)
next
  case (Some cur)
  show ?thesis
  proof (cases "cur < dl")
    case True
    with Some have "dl \<le> t \<Longrightarrow> ctx_done fl t g"
      using ctx_done_deadline [of g cur t fl] by simp
    with True Some show ?thesis by (auto simp: WithDeadline_def)
  next
    case False
    with Some show ?thesis by (simp add: WithDeadline_def)
  qed
qed

lemma WithDeadline_deadline:
  "ctx_deadline (WithDeadline g dl i) =
     Some (case ctx_deadline g of None \<Rightarrow> dl | Some cur \<Rightarrow> min cur dl)"
  by (simp add: WithDeadline_def min_def split: option.splits)

lemma in_request_setCtx: "in_request (setCtx w0 req l c)"
  by (simp add: in_request_def setCtx_def withCancel_def)

lemma in_request_kept:
  assumes "in_request c"
  shows "Set key val c = Inr c' \<Longrightarrow> in_request c'"
    and "WithTimeout d c = Inr c' \<Longrightarrow> in_request c'"
    and "WriteFailure code msg c = Inr c' \<Longrightarrow> in_request c'"
    and "SuccessWithData js c = Inr c' \<Longrightarrow> in_request c'"
    and "in_request (tick n c)"
  using assms
  by (auto simp: in_request_def Set_def WithTimeout_def WriteFailure_def SuccessWithData_def
        writer_calls_def call_cancel_def Error_def tick_def bind_err_def less_Suc_eq
        split: option.splits sum.splits if_splits)

text \<open>No method a handler can call, and no passing of time, takes a fired
  cancellation signal back.\<close>

lemma Done_stays:
  assumes "in_request c" and "Done c = Inr True"
  shows "Set key val c = Inr c' \<Longrightarrow> Done c' = Inr True"
    and "WithTimeout d c = Inr c' \<Longrightarrow> Done c' = Inr True"
    and "WriteFailure code msg c = Inr c' \<Longrightarrow> Done c' = Inr True"
    and "SuccessWithData js c = Inr c' \<Longrightarrow> Done c' = Inr True"
    and "0 \<le> n \<Longrightarrow> Done (tick n c) = Inr True"
proof -
  from assms obtain g where g: "ctx c = Some g" "ctx_done (cancelled c) (clock c) g"
    "fresh c \<notin> ctx_ids g"
    by (auto simp: Done_def in_request_def split: option.splits)
  show "Set key val c = Inr c' \<Longrightarrow> Done c' = Inr True"
    using g by (auto simp: Set_def Done_def)
  show "WithTimeout d c = Inr c' \<Longrightarrow> Done c' = Inr True"
    using g by (auto simp: WithTimeout_def Done_def WithDeadline_done ctx_done_other)
  show "WriteFailure code msg c = Inr c' \<Longrightarrow> Done c' = Inr True"
    using g ctx_done_more [of "cancelled c" "clock c" g]
    by (auto simp: WriteFailure_def writer_calls_def call_cancel_def Done_def bind_err_def
          split: option.splits sum.splits)
  show "SuccessWithData js c = Inr c' \<Longrightarrow> Done c' = Inr True"
    using g
    by (auto simp: SuccessWithData_def writer_calls_def Error_def Done_def bind_err_def
          split: option.splits sum.splits if_splits)
  show "0 \<le> n \<Longrightarrow> Done (tick n c) = Inr True"
    using g ctx_done_later [of "cancelled c" "clock c" g "clock c + n"]
    by (simp add: Done_def tick_def)
qed

subsection \<open>Answering with a failure, answering with data\<close>

text \<open>
  Claim C6. On a context of a running request (a writer, a logger, and a cancel
  function that belongs to a node of the context's chain, as \<open>in_request\<close> has it),
  \<^verbatim>\<open>WriteFailure\<close> writes the
  status and the errors object and leaves the cancellation signal fired, so that the
  loop of the chain, at the turn of any later handler, writes the timeout and returns
  without running it or any handler after it. \<^verbatim>\<open>SuccessWithData\<close> writes status 200
  and the payload and leaves the signal as it was, so that the loop runs the next
  handler when the signal had not fired.
\<close>

theorem WriteFailure_stops_chain:
  assumes "w c = Some evs" and "cancel c = Some i" and "ctx c = Some g" and "i \<in> ctx_ids g"
      and "log c = Some l"
  shows "(\<exists>c'. WriteFailure code msg c = Inr c'
            \<and> w c' = Some (evs @ [WriteHeader code, Write (ErrorsObject msg)])
            \<and> Done c' = Inr True
            \<and> (\<forall>exec h hs.
                  chain_loop exec (h # hs) c' = WriteFailure 504 ''request timeout'' c'))
       \<and> (\<exists>c'. SuccessWithData js c = Inr c'
            \<and> w c' = Some (evs @ [WriteHeader 200, Write (Marshalled js)])
            \<and> Done c' = Done c
            \<and> (Done c = Inr False \<longrightarrow>
                 (\<forall>exec h hs.
                    chain_loop exec (h # hs) c' = bind_err (exec h c') (chain_loop exec hs))))"
proof -
  let ?c1 = "c\<lparr> w := Some (evs @ [WriteHeader code, Write (ErrorsObject msg)]),
                 cancelled := (cancelled c)(i := True) \<rparr>"
  have wf: "WriteFailure code msg c = Inr ?c1"
    using assms by (simp add: WriteFailure_def writer_calls_def call_cancel_def)
  have d1: "Done ?c1 = Inr True"
    using assms ctx_done_fired [of i g "(cancelled c)(i := True)" "clock c"]
    by (simp add: Done_def)
  have l1: "\<forall>exec h hs. chain_loop exec (h # hs) ?c1 = WriteFailure 504 ''request timeout'' ?c1"
    using d1 assms by (simp add: Error_def)
  let ?c2 = "c\<lparr> w := Some (evs @ [WriteHeader 200, Write (Marshalled js)]) \<rparr>"
  have sd: "SuccessWithData js c = Inr ?c2"
    using assms by (simp add: SuccessWithData_def writer_calls_def Error_def)
  have d2: "Done ?c2 = Done c"
    using assms by (simp add: Done_def)
  have l2: "Done c = Inr False \<longrightarrow>
     (\<forall>exec h hs. chain_loop exec (h # hs) ?c2 = bind_err (exec h ?c2) (chain_loop exec hs))"
    using d2 by simp
  from wf d1 l1 have A: "\<exists>c'. WriteFailure code msg c = Inr c'
            \<and> w c' = Some (evs @ [WriteHeader code, Write (ErrorsObject msg)])
            \<and> Done c' = Inr True
            \<and> (\<forall>exec h hs.
                  chain_loop exec (h # hs) c' = WriteFailure 504 ''request timeout'' c')"
    by (intro exI [of _ ?c1]) simp
  from sd d2 l2 have B: "\<exists>c'. SuccessWithData js c = Inr c'
            \<and> w c' = Some (evs @ [WriteHeader 200, Write (Marshalled js)])
            \<and> Done c' = Done c
            \<and> (Done c = Inr False \<longrightarrow>
                 (\<forall>exec h hs.
                    chain_loop exec (h # hs) c' = bind_err (exec h c') (chain_loop exec hs)))"
    by (intro exI [of _ ?c2]) simp
  from A B show ?thesis by blast
qed

theorem WriteFailure_stops_chain_witness:
  "w example_ctx = Some [] \<and> cancel example_ctx = Some 0
   \<and> ctx example_ctx = Some (cancelCtx 0 Background)
   \<and> 0 \<in> ctx_ids (cancelCtx 0 Background :: string gctx)
   \<and> log example_ctx = Some [] \<and> Done example_ctx = Inr False
   \<and> (\<exists>c'. WriteFailure 400 ''invalid request'' example_ctx = Inr c'
         \<and> w c' = Some [WriteHeader 400, Write (ErrorsObject ''invalid request'')]
         \<and> Done c' = Inr True
         \<and> chain_loop example_exec [''next''] c' = WriteFailure 504 ''request timeout'' c')
   \<and> (\<exists>c'. SuccessWithData (Some ''first'') example_ctx = Inr c'
         \<and> w c' = Some [WriteHeader 200, Write (Marshalled (Some ''first''))]
         \<and> Done c' = Inr False
         \<and> chain_loop example_exec [''next''] c'
             = bind_err (example_exec ''next'' c') (chain_loop example_exec []))
   \<and> map_sum id w (wrappedHandler example_exec [''fail'', ''next''] (example_ctx\<lparr> wg := Some 1 \<rparr>))
       = Inr (Some [WriteHeader 400, Write (ErrorsObject ''invalid request''),
                    WriteHeader 504, Write (ErrorsObject ''request timeout'')])
   \<and> map_sum id w (wrappedHandler example_exec [''first'', ''next''] (example_ctx\<lparr> wg := Some 1 \<rparr>))
       = Inr (Some [WriteHeader 200, Write (Marshalled (Some ''first'')),
                    WriteHeader 200, Write (Marshalled (Some ''next''))])"
proof -
  have h1: "w example_ctx = Some []" and h2: "cancel example_ctx = Some 0"
    and h3: "ctx example_ctx = Some (cancelCtx 0 Background)"
    and h4: "0 \<in> ctx_ids (cancelCtx 0 Background :: string gctx)"
    and h5: "log example_ctx = Some []"
    and h6: "Done example_ctx = Inr False"
    by (simp_all add: example_ctx_defs Done_def)
  note inst = WriteFailure_stops_chain [OF h1 h2 h3 h4 h5, of 400 "''invalid request''"
      "Some ''first''"]
  from inst obtain c1 where c1: "WriteFailure 400 ''invalid request'' example_ctx = Inr c1"
      "w c1 = Some ([] @ [WriteHeader 400, Write (ErrorsObject ''invalid request'')])"
      "Done c1 = Inr True"
      "\<forall>exec h hs. chain_loop exec (h # hs) c1 = WriteFailure 504 ''request timeout'' c1"
    by blast
  from c1(4) have "chain_loop example_exec [''next''] c1
      = WriteFailure 504 ''request timeout'' c1"
    by blast
  with c1 have a: "\<exists>c'. WriteFailure 400 ''invalid request'' example_ctx = Inr c'
         \<and> w c' = Some [WriteHeader 400, Write (ErrorsObject ''invalid request'')]
         \<and> Done c' = Inr True
         \<and> chain_loop example_exec [''next''] c' = WriteFailure 504 ''request timeout'' c'"
    by (intro exI [of _ c1]) simp
  from inst obtain c2 where c2: "SuccessWithData (Some ''first'') example_ctx = Inr c2"
      "w c2 = Some ([] @ [WriteHeader 200, Write (Marshalled (Some ''first''))])"
      "Done c2 = Done example_ctx"
      "Done example_ctx = Inr False \<longrightarrow>
         (\<forall>exec h hs. chain_loop exec (h # hs) c2 = bind_err (exec h c2) (chain_loop exec hs))"
    by blast
  from c2(4) h6 have "chain_loop example_exec [''next''] c2
      = bind_err (example_exec ''next'' c2) (chain_loop example_exec [])"
    by blast
  with c2 h6 have b: "\<exists>c'. SuccessWithData (Some ''first'') example_ctx = Inr c'
         \<and> w c' = Some [WriteHeader 200, Write (Marshalled (Some ''first''))]
         \<and> Done c' = Inr False
         \<and> chain_loop example_exec [''next''] c'
             = bind_err (example_exec ''next'' c') (chain_loop example_exec [])"
    by (intro exI [of _ c2]) simp
  have c: "map_sum id w (wrappedHandler example_exec [''fail'', ''next'']
              (example_ctx\<lparr> wg := Some 1 \<rparr>))
       = Inr (Some [WriteHeader 400, Write (ErrorsObject ''invalid request''),
                    WriteHeader 504, Write (ErrorsObject ''request timeout'')])"
    by (simp add: example_ctx_defs wrappedHandler_def example_exec_def Done_def Error_def
          WriteFailure_def writer_calls_def call_cancel_def wg_Done_def)
  have d: "map_sum id w (wrappedHandler example_exec [''first'', ''next'']
              (example_ctx\<lparr> wg := Some 1 \<rparr>))
       = Inr (Some [WriteHeader 200, Write (Marshalled (Some ''first'')),
                    WriteHeader 200, Write (Marshalled (Some ''next''))])"
    by (simp add: example_ctx_defs wrappedHandler_def example_exec_def Done_def Error_def
          SuccessWithData_def writer_calls_def wg_Done_def)
  from h1 h2 h3 h4 h5 h6 a b c d show ?thesis by (intro conjI)
qed


subsection \<open>A context cancelled before its chain starts\<close>

text \<open>
  Claim C2 as stated fails on the worker's guard. A worker calls the closure of a job
  only when \<^verbatim>\<open>job.Context.Err() == nil\<close>: for the context of the example, whose cancel
  function has been called, the job that \<^verbatim>\<open>Submit\<close> sends is taken and dropped, and the
  response writer has received nothing, so no timeout response either.
\<close>

theorem cancelled_job_counterexample:
  "Done example_cancelled = Inr True
   \<and> map_sum id (map_option w) (submit_and_work example_exec example_cancelled [''byId''])
       = Inr (Some (Some []))"
  by (simp add: example_cancelled_def example_ctx_defs call_cancel_def Done_def Err_def
        submit_and_work_def Submit_def wg_Add_def worker_job_def)

text \<open>
  Claim C2, amended. For a context whose cancellation signal has fired when a worker
  takes its job, the job runs no handler and nothing is written for the request: the
  outcome is the same whatever the handlers do, and the writer is as it was. When the
  signal is first seen by the loop of the chain itself (it fired after the worker's
  guard), a chain of at least one handler runs no handler and writes exactly one
  response, status 504 with the errors object.
\<close>

theorem cancelled_before_start:
  assumes "Done c = Inr True" and "wg c = Some n"
  shows "(\<exists>c'. (\<forall>exec. submit_and_work exec c hs = Inr (Some c')) \<and> w c' = w c)
       \<and> (w c = Some evs \<and> cancel c = Some i \<and> log c = Some l \<and> hs \<noteq> [] \<longrightarrow>
            (\<exists>c'. (\<forall>exec. chain_loop exec hs c = Inr c')
               \<and> w c' = Some (evs @ [WriteHeader 504,
                                      Write (ErrorsObject ''request timeout'')])))"
proof -
  from assms(1) obtain g where g: "ctx c = Some g" "ctx_done (cancelled c) (clock c) g"
    by (auto simp: Done_def split: option.splits)
  let ?c1 = "c\<lparr> wg := Some (n + 1) \<rparr>"
  have "\<forall>exec. submit_and_work exec c hs = Inr (Some ?c1)"
    using assms g
    by (simp add: submit_and_work_def Submit_def wg_Add_def worker_job_def Err_def Done_def)
  then have A: "\<exists>c'. (\<forall>exec. submit_and_work exec c hs = Inr (Some c')) \<and> w c' = w c"
    by (intro exI [of _ ?c1]) simp
  have B: "\<exists>c'. (\<forall>exec. chain_loop exec hs c = Inr c')
               \<and> w c' = Some (evs @ [WriteHeader 504, Write (ErrorsObject ''request timeout'')])"
    if live: "w c = Some evs" "cancel c = Some i" "log c = Some l" "hs \<noteq> []"
  proof -
    from live(4) obtain h hs' where hs: "hs = h # hs'" by (cases hs) auto
    let ?c2 = "c\<lparr> w := Some (evs @ [WriteHeader 504, Write (ErrorsObject ''request timeout'')]),
                   cancelled := (cancelled c)(i := True) \<rparr>"
    have "\<forall>exec. chain_loop exec hs c = Inr ?c2"
      using live assms(1) hs
      by (simp add: Error_def WriteFailure_def writer_calls_def call_cancel_def)
    then show ?thesis by (intro exI [of _ ?c2]) simp
  qed
  from A B show ?thesis by blast
qed

theorem cancelled_before_start_witness:
  "Done example_cancelled = Inr True \<and> wg example_cancelled = Some 0
   \<and> w example_cancelled = Some [] \<and> cancel example_cancelled = Some 0
   \<and> log example_cancelled = Some [] \<and> [''byId'', ''next''] \<noteq> []
   \<and> (\<exists>c'. submit_and_work example_exec example_cancelled [''byId'', ''next''] = Inr (Some c')
         \<and> w c' = Some [])
   \<and> (\<exists>c'. chain_loop example_exec [''byId'', ''next''] example_cancelled = Inr c'
         \<and> w c' = Some [WriteHeader 504, Write (ErrorsObject ''request timeout'')])"
proof -
  have h1: "Done example_cancelled = Inr True" and h2: "wg example_cancelled = Some 0"
    and h3: "w example_cancelled = Some []" and h4: "cancel example_cancelled = Some 0"
    and h5: "log example_cancelled = Some []" and h6: "[''byId'', ''next''] \<noteq> []"
    by (simp_all add: example_cancelled_def example_ctx_defs call_cancel_def Done_def)
  note inst = cancelled_before_start [OF h1 h2, of "[''byId'', ''next'']" "[]" 0 "[]"]
  from inst obtain c1 where
    c1: "\<forall>exec. submit_and_work exec example_cancelled [''byId'', ''next''] = Inr (Some c1)"
      "w c1 = w example_cancelled"
    by blast
  from c1(1) have "submit_and_work example_exec example_cancelled [''byId'', ''next'']
      = Inr (Some c1)"
    by blast
  with c1(2) h3 have a: "\<exists>c'. submit_and_work example_exec example_cancelled
        [''byId'', ''next''] = Inr (Some c') \<and> w c' = Some []"
    by (intro exI [of _ c1]) simp
  from inst h3 h4 h5 h6 obtain c2 where
    c2: "\<forall>exec. chain_loop exec [''byId'', ''next''] example_cancelled = Inr c2"
      "w c2 = Some ([] @ [WriteHeader 504, Write (ErrorsObject ''request timeout'')])"
    by blast
  from c2(1) have "chain_loop example_exec [''byId'', ''next''] example_cancelled = Inr c2"
    by blast
  with c2(2) have b: "\<exists>c'. chain_loop example_exec [''byId'', ''next''] example_cancelled
        = Inr c' \<and> w c' = Some [WriteHeader 504, Write (ErrorsObject ''request timeout'')]"
    by (intro exI [of _ c2]) simp
  from h1 h2 h3 h4 h5 h6 a b show ?thesis by (intro conjI)
qed

subsection \<open>Setting a timeout twice\<close>

text \<open>
  Claim C8 as stated fails when the first deadline is the earlier one.
  \<^verbatim>\<open>WithTimeout\<close> derives the new state from the context's current one, which keeps
  its deadline: after \<^verbatim>\<open>WithTimeout(1)\<close> and \<^verbatim>\<open>WithTimeout(10)\<close> at time 0 the
  deadline reported is 1, and the signal has fired at time 1 (and not at time 0),
  nine units before the second timeout has elapsed.
\<close>

theorem rearm_counterexample:
  "bind_err example_rearmed Deadline = Inr (Some 1)
   \<and> bind_err example_rearmed (Done_after 1) = Inr True
   \<and> bind_err example_rearmed (Done_after 0) = Inr False"
  by (simp add: example_rearmed_def example_ctx_defs WithTimeout_def WithDeadline_def
        Deadline_def Done_after_def Done_def tick_def)

text \<open>
  Claim C8, amended. After \<^verbatim>\<open>WithTimeout(d)\<close> the cancellation signal has fired once
  \<open>d\<close> has elapsed. Setting a second timeout keeps the first: after \<^verbatim>\<open>WithTimeout(d1)\<close>
  and, \<open>k\<close> later, \<^verbatim>\<open>WithTimeout(d2)\<close>, the signal has fired exactly when the state
  before the two calls has fired, or \<open>d1\<close> has elapsed since the first call, or \<open>d2\<close>
  since the second; the deadline reported is the earliest of the deadlines set. The
  node numbers of the chain are below the next unused number, which \<open>in_request\<close>
  says of every context that \<^verbatim>\<open>setCtx\<close> and the methods have built.
\<close>

theorem WithTimeout_keeps_earlier_deadline:
  assumes g: "ctx c = Some g" and below: "\<forall>i\<in>ctx_ids g. i < fresh c"
  shows "\<exists>c1 c2. WithTimeout d1 c = Inr c1 \<and> WithTimeout d2 (tick k c1) = Inr c2
           \<and> (\<forall>n. d1 \<le> n \<longrightarrow> Done (tick n c1) = Inr True)
           \<and> (\<forall>n. Done (tick n c2) =
                 Inr (ctx_done (cancelled c) (clock c + k + n) g
                      \<or> clock c + d1 \<le> clock c + k + n
                      \<or> clock c + k + d2 \<le> clock c + k + n))
           \<and> Deadline c2 =
               Inr (Some (case ctx_deadline g of
                            None \<Rightarrow> min (clock c + d1) (clock c + k + d2)
                          | Some cur \<Rightarrow> min cur (min (clock c + d1) (clock c + k + d2))))"
proof -
  define g1 where "g1 = WithDeadline g (clock c + d1) (fresh c)"
  define c1 where "c1 = c\<lparr> ctx := Some g1, cancel := Some (fresh c),
                            cancelled := (cancelled c)(fresh c := False),
                            fresh := Suc (fresh c) \<rparr>"
  define g2 where "g2 = WithDeadline g1 (clock c + k + d2) (Suc (fresh c))"
  define fl2 where "fl2 = (cancelled c)(fresh c := False, Suc (fresh c) := False)"
  define c2 where "c2 = (tick k c1)\<lparr> ctx := Some g2, cancel := Some (Suc (fresh c)),
                            cancelled := fl2, fresh := Suc (Suc (fresh c)) \<rparr>"
  have s1: "WithTimeout d1 c = Inr c1"
    using g by (simp add: WithTimeout_def c1_def g1_def)
  have s2: "WithTimeout d2 (tick k c1) = Inr c2"
    by (simp add: WithTimeout_def c2_def g2_def c1_def tick_def fl2_def add.assoc)
  from below have nf: "fresh c \<notin> ctx_ids g" "Suc (fresh c) \<notin> ctx_ids g" by auto
  have A: "\<forall>n. d1 \<le> n \<longrightarrow> Done (tick n c1) = Inr True"
    by (simp add: Done_def tick_def c1_def g1_def WithDeadline_done)
  have B: "Done (tick n c2) =
                 Inr (ctx_done (cancelled c) (clock c + k + n) g
                      \<or> clock c + d1 \<le> clock c + k + n
                      \<or> clock c + k + d2 \<le> clock c + k + n)" for n
  proof -
    have off: "\<not> fl2 (fresh c)" "\<not> fl2 (Suc (fresh c))"
      by (simp_all add: fl2_def)
    have same: "ctx_done fl2 (clock c + k + n) g = ctx_done (cancelled c) (clock c + k + n) g"
      using nf by (simp add: fl2_def ctx_done_other)
    have "Done (tick n c2) = Inr (ctx_done fl2 (clock c + k + n) g2)"
      by (simp add: Done_def tick_def c2_def c1_def)
    also have "ctx_done fl2 (clock c + k + n) g2
        = (clock c + k + d2 \<le> clock c + k + n \<or> clock c + d1 \<le> clock c + k + n
           \<or> ctx_done fl2 (clock c + k + n) g)"
      using off by (simp add: g2_def g1_def WithDeadline_done)
    finally show ?thesis using same by auto
  qed
  have C: "Deadline c2 =
               Inr (Some (case ctx_deadline g of
                            None \<Rightarrow> min (clock c + d1) (clock c + k + d2)
                          | Some cur \<Rightarrow> min cur (min (clock c + d1) (clock c + k + d2))))"
    by (simp add: Deadline_def c2_def c1_def tick_def g2_def g1_def WithDeadline_deadline
          min.assoc split: option.splits)
  from s1 s2 A B C show ?thesis by blast
qed

theorem WithTimeout_keeps_earlier_deadline_witness:
  "ctx example_ctx = Some (cancelCtx 0 Background)
   \<and> fresh example_ctx = 1
   \<and> (\<exists>c1 c2. WithTimeout 1 example_ctx = Inr c1 \<and> WithTimeout 10 (tick 0 c1) = Inr c2
         \<and> Done (tick 1 c1) = Inr True
         \<and> Done (tick 1 c2) = Inr True
         \<and> Done (tick 0 c2) = Inr False
         \<and> Deadline c2 = Inr (Some 1))"
proof -
  have h1: "ctx example_ctx = Some (cancelCtx 0 Background)"
    and h3: "fresh example_ctx = 1"
    and h4: "clock example_ctx = 0" and h5: "\<not> cancelled example_ctx 0"
    by (simp_all add: example_ctx_defs)
  have h2: "\<forall>i\<in>ctx_ids (cancelCtx 0 (Background :: string gctx)). i < fresh example_ctx"
    using h3 by simp
  from WithTimeout_keeps_earlier_deadline [OF h1 h2, of 1 10 0]
  obtain c1 c2 where
    s: "WithTimeout 1 example_ctx = Inr c1" "WithTimeout 10 (tick 0 c1) = Inr c2"
    and a: "\<forall>n. 1 \<le> n \<longrightarrow> Done (tick n c1) = Inr True"
    and b: "\<forall>n. Done (tick n c2) =
                 Inr (ctx_done (cancelled example_ctx) (clock example_ctx + 0 + n)
                        (cancelCtx 0 (Background :: string gctx))
                      \<or> clock example_ctx + 1 \<le> clock example_ctx + 0 + n
                      \<or> clock example_ctx + 0 + 10 \<le> clock example_ctx + 0 + n)"
    and d: "Deadline c2 =
               Inr (Some (case ctx_deadline (cancelCtx 0 (Background :: string gctx)) of
                            None \<Rightarrow> min (clock example_ctx + 1) (clock example_ctx + 0 + 10)
                          | Some cur \<Rightarrow> min cur (min (clock example_ctx + 1)
                                                 (clock example_ctx + 0 + 10))))"
    by blast
  from a have a1: "Done (tick 1 c1) = Inr True" by simp
  from b [rule_format, of 1] h4 h5 have b1: "Done (tick 1 c2) = Inr True" by simp
  from b [rule_format, of 0] h4 h5 have b0: "Done (tick 0 c2) = Inr False" by simp
  from d h4 have d1: "Deadline c2 = Inr (Some 1)" by simp
  from s a1 b1 b0 d1 have "\<exists>c1 c2. WithTimeout 1 example_ctx = Inr c1
         \<and> WithTimeout 10 (tick 0 c1) = Inr c2
         \<and> Done (tick 1 c1) = Inr True
         \<and> Done (tick 1 c2) = Inr True
         \<and> Done (tick 0 c2) = Inr False
         \<and> Deadline c2 = Inr (Some 1)"
    by blast
  with h1 h3 show ?thesis by (intro conjI)
qed


section \<open>The wait group keeps the context out of the pool\<close>

lemma step_inv:
  assumes "keeps_wg exec" and "step exec s s'" and "lifecycle_inv s"
  shows "lifecycle_inv s'"
  using assms(2,3,1)
proof (cases rule: step.cases)
  case (add hs c')
  then show ?thesis using assms(3)
    by (auto simp: lifecycle_inv_def outstanding_def wg_Add_def split: option.splits)
next
  case (send hs)
  then show ?thesis using assms(3) by (auto simp: lifecycle_inv_def outstanding_def)
next
  case (take_run hs rest)
  then show ?thesis using assms(3)
    by (auto simp: lifecycle_inv_def outstanding_def split: dispatcher.splits)
next
  case (take_skip hs rest)
  then show ?thesis using assms(3)
    by (auto simp: lifecycle_inv_def outstanding_def split: dispatcher.splits)
next
  case (run_handler h hs c')
  with assms(1) have "wg c' = wg (shared s)" by (auto simp: keeps_wg_def)
  with run_handler show ?thesis using assms(3)
    by (auto simp: lifecycle_inv_def outstanding_def split: dispatcher.splits)
next
  case (stop_chain h hs c')
  then have "wg c' = wg (shared s)"
    by (auto simp: Error_def WriteFailure_def writer_calls_def call_cancel_def bind_err_def
          split: option.splits sum.splits)
  with stop_chain show ?thesis using assms(3)
    by (auto simp: lifecycle_inv_def outstanding_def split: dispatcher.splits)
next
  case end_chain
  then show ?thesis using assms(3)
    by (auto simp: lifecycle_inv_def outstanding_def split: dispatcher.splits)
next
  case (wg_done c')
  then show ?thesis using assms(3)
    by (auto simp: lifecycle_inv_def outstanding_def wg_Done_def
          split: dispatcher.splits option.splits if_splits)
next
  case (time_passes n)
  then show ?thesis using assms(3)
    by (auto simp: lifecycle_inv_def outstanding_def tick_def split: dispatcher.splits)
next
  case (wait_returns c')
  then show ?thesis using assms(3)
    by (auto simp: lifecycle_inv_def outstanding_def wait_def split: option.splits if_splits)
next
  case do_reset
  then show ?thesis using assms(3) by (auto simp: lifecycle_inv_def outstanding_def)
next
  case put_back
  then show ?thesis using assms(3) by (auto simp: lifecycle_inv_def outstanding_def)
qed

lemma reachable_inv:
  assumes "keeps_wg exec" and "reachable exec s0 s" and "lifecycle_inv s0"
  shows "lifecycle_inv s"
  using assms(2,3,1) by (induction rule: reachable.induct) (auto intro: step_inv)

lemma route_request_wg:
  "route_request rt w0 req got = Inr (c, found) \<Longrightarrow> wg c = Some 0"
  by (auto simp: dispatch_defs Let_def split: option.splits resolution.splits)

lemma start_inv: "wg c = Some 0 \<Longrightarrow> lifecycle_inv (start c found)"
  by (simp add: lifecycle_inv_def start_def outstanding_def split: option.splits)

text \<open>
  Claim C3. \<^verbatim>\<open>Submit\<close> adds one to the context's wait group and sends the job with the
  counter already raised; the closure takes one off after the loop of the chain has
  ended, whether every handler ran or the loop stopped on the cancellation signal; the
  deferred function of \<^verbatim>\<open>ServeHTTP\<close> gets past its wait only with the counter at zero
  and then resets the context and puts it back. Hence, in every state that the
  dispatcher, the worker and the clock can reach from the end of the lookup, with
  handlers that leave the wait group alone: while the job waits in the channel or a
  worker is on it the counter is one, and once the dispatcher resets the context or has
  put it into the pool the job is not outstanding.
\<close>

theorem context_pooled_only_after_job:
  assumes "keeps_wg exec"
      and "route_request rt w0 req got = Inr (c, found)"
      and "reachable exec (start c found) s"
  shows "(in_pool s \<or> disp s = D_Reset \<or> disp s = D_Put \<longrightarrow> \<not> outstanding s)
       \<and> (outstanding s \<longrightarrow> wg (shared s) = Some 1)
       \<and> (wg c0 = Some n \<longrightarrow>
            Submit c0 hs = Inr (c0\<lparr> wg := Some (n + 1) \<rparr>,
                                \<lparr> Context = Some (c0\<lparr> wg := Some (n + 1) \<rparr>),
                                  HandlerFunc = hs \<rparr>))
       \<and> (chain_loop exec hs c0 = Inr c1 \<and> wg c1 = Some (Suc n) \<longrightarrow>
            wrappedHandler exec hs c0 = Inr (c1\<lparr> wg := Some n \<rparr>))
       \<and> ((\<exists>res. release c0 = Inr res) \<longleftrightarrow> wg c0 = Some 0)
       \<and> (wg c0 = Some 0 \<longrightarrow> release c0 = Inr (w c0, reset c0))"
proof -
  have inv: "lifecycle_inv s"
    using reachable_inv [OF assms(1) assms(3)] start_inv [OF route_request_wg [OF assms(2)]] .
  have A: "in_pool s \<or> disp s = D_Reset \<or> disp s = D_Put \<longrightarrow> \<not> outstanding s"
    using inv by (auto simp: lifecycle_inv_def split: dispatcher.splits)
  have B: "outstanding s \<longrightarrow> wg (shared s) = Some 1"
    using inv by (auto simp: lifecycle_inv_def split: dispatcher.splits)
  have C: "wg c0 = Some n \<longrightarrow>
            Submit c0 hs = Inr (c0\<lparr> wg := Some (n + 1) \<rparr>,
                                \<lparr> Context = Some (c0\<lparr> wg := Some (n + 1) \<rparr>),
                                  HandlerFunc = hs \<rparr>)"
    by (simp add: Submit_def wg_Add_def)
  have D: "chain_loop exec hs c0 = Inr c1 \<and> wg c1 = Some (Suc n) \<longrightarrow>
            wrappedHandler exec hs c0 = Inr (c1\<lparr> wg := Some n \<rparr>)"
    by (simp add: wrappedHandler_def wg_Done_def)
  have E: "(\<exists>res. release c0 = Inr res) \<longleftrightarrow> wg c0 = Some 0"
    by (auto simp: release_def wait_def split: option.splits)
  have F: "wg c0 = Some 0 \<longrightarrow> release c0 = Inr (w c0, reset c0)"
    by (simp add: release_def wait_def)
  from A B C D E F show ?thesis by blast
qed

lemma example_exec_keeps_wg: "keeps_wg example_exec"
  by (auto simp: keeps_wg_def example_exec_def SuccessWithData_def WriteFailure_def
        writer_calls_def call_cancel_def Error_def bind_err_def
        split: option.splits sum.splits if_splits)

text \<open>One request from the end of the lookup to the pool, with one handler that
  answers: every step of both goroutines in turn.\<close>

lemma example_run:
  assumes wg0: "wg c = Some 0" and g: "ctx c = Some (cancelCtx i Background)"
      and fl: "\<not> cancelled c i" and wr: "w c = Some evs" and h: "h \<noteq> ''fail''"
  shows "\<exists>s. reachable example_exec (start c (Some [h])) s \<and> in_pool s"
proof -
  let ?E = "example_exec"
  define s0 where "s0 = start c (Some [h])"
  define c1 where "c1 = c\<lparr> wg := Some 1 \<rparr>"
  define s1 where "s1 = s0\<lparr> shared := c1, disp := D_Send [h] \<rparr>"
  define s2 where "s2 = s1\<lparr> jobs := jobs s1 @ [[h]], disp := D_Wait \<rparr>"
  define s3 where "s3 = s2\<lparr> jobs := [], work := W_Chain [h] \<rparr>"
  define c2 where "c2 = c1\<lparr> w := Some (evs @ [WriteHeader 200, Write (Marshalled (Some h))]) \<rparr>"
  define s4 where "s4 = s3\<lparr> shared := c2, work := W_Chain [] \<rparr>"
  define s5 where "s5 = s4\<lparr> work := W_Defer \<rparr>"
  define c3 where "c3 = c2\<lparr> wg := Some 0 \<rparr>"
  define s6 where "s6 = s5\<lparr> shared := c3, work := W_Idle \<rparr>"
  define s7 where "s7 = s6\<lparr> disp := D_Reset \<rparr>"
  define s8 where "s8 = s7\<lparr> shared := reset (shared s7), disp := D_Put \<rparr>"
  define s9 where "s9 = s8\<lparr> in_pool := True, disp := D_Returned \<rparr>"
  have d: "Done c1 = Inr False" "Err c1 = Inr False"
    using g fl by (simp_all add: Done_def Err_def c1_def)
  have w1: "w c1 = Some evs" by (simp add: c1_def wr)
  have t1: "step ?E s0 s1" unfolding s1_def
    by (rule step.add) (simp_all add: s0_def start_def wg_Add_def wg0 c1_def)
  have t2: "step ?E s1 s2" unfolding s2_def
    by (rule step.send) (simp add: s1_def)
  have t3: "step ?E s2 s3" unfolding s3_def
    by (rule step.take_run [where rest = "[]"])
       (simp_all add: s2_def s1_def s0_def start_def d)
  have t4: "step ?E s3 s4" unfolding s4_def
    by (rule step.run_handler [where h = h])
       (simp_all add: s3_def s2_def s1_def d example_exec_def SuccessWithData_def
          writer_calls_def c2_def w1 h)
  have t5: "step ?E s4 s5" unfolding s5_def
    by (rule step.end_chain) (simp add: s4_def)
  have t6: "step ?E s5 s6" unfolding s6_def
    by (rule step.wg_done) (simp_all add: s5_def s4_def wg_Done_def c2_def c1_def c3_def)
  have t7: "step ?E s6 s7" unfolding s7_def
    by (rule step.wait_returns [where c' = c3])
       (simp_all add: s6_def s5_def s4_def s3_def s2_def wait_def c3_def)
  have t8: "step ?E s7 s8" unfolding s8_def
    by (rule step.do_reset) (simp add: s7_def s6_def s5_def s4_def s3_def s2_def)
  have t9: "step ?E s8 s9" unfolding s9_def
    by (rule step.put_back) (simp add: s8_def)
  have "reachable ?E s0 s9"
    by (intro reachable.r_step [OF _ t9] reachable.r_step [OF _ t8] reachable.r_step [OF _ t7]
          reachable.r_step [OF _ t6] reachable.r_step [OF _ t5] reachable.r_step [OF _ t4]
          reachable.r_step [OF _ t3] reachable.r_step [OF _ t2] reachable.r_step [OF _ t1]
          reachable.r_init)
  moreover have "in_pool s9" by (simp add: s9_def)
  ultimately show ?thesis unfolding s0_def by blast
qed

theorem context_pooled_only_after_job_witness:
  "keeps_wg example_exec
   \<and> (\<exists>c s. route_request example_users [] (example_request ''GET'' ''/users/42'')
               (zero_APIContext 0 (\<lambda>i. False) 0) = Inr (c, Some [''byId''])
         \<and> reachable example_exec (start c (Some [''byId''])) s
         \<and> in_pool s \<and> \<not> outstanding s)"
proof -
  let ?got = "zero_APIContext 0 (\<lambda>i. False) 0 :: (string, string) APIContext"
  let ?req = "example_request ''GET'' ''/users/42''"
  define c where "c = fst (projr (route_request example_users [] ?req ?got))"
  have rr: "route_request example_users [] ?req ?got = Inr (c, Some [''byId''])"
    by (simp add: c_def dispatch_defs example_users_def example_request_def
          zero_APIContext_def route_defs)
  have facts: "wg c = Some 0" "ctx c = Some (cancelCtx 0 Background)" "\<not> cancelled c 0"
      "w c = Some [content_type]"
    by (simp_all add: c_def dispatch_defs example_users_def example_request_def
          zero_APIContext_def route_defs)
  have ne: "''byId'' \<noteq> ''fail''" by simp
  from example_run [OF facts ne] obtain s where
    s: "reachable example_exec (start c (Some [''byId''])) s" "in_pool s"
    by blast
  from context_pooled_only_after_job [OF example_exec_keeps_wg rr s(1)] s(2)
  have "\<not> outstanding s" by blast
  with rr s have "\<exists>c s. route_request example_users [] ?req ?got = Inr (c, Some [''byId''])
         \<and> reachable example_exec (start c (Some [''byId''])) s
         \<and> in_pool s \<and> \<not> outstanding s"
    by blast
  with example_exec_keeps_wg show ?thesis by (intro conjI)
qed

end
